theory Spec2Isabelle
  imports Main "HOL-Library.Sublist" "HOL-Library.AList"
begin

section \<open>Python values and strings\<close>

text \<open>
  The repository is a Django REST backend (\<^verbatim>\<open>Main.py\<close>) and a Streamlit chat client
  (\<^verbatim>\<open>Streamlit_app.py\<close>). Both are Python; the model below is a shallow embedding of
  the functions of the two files.

  A Python \<^verbatim>\<open>str\<close> is modelled as a \<^typ>\<open>string\<close>, each \<^typ>\<open>char\<close> read as one code
  point in the range U+0000 .. U+00FF. \<^verbatim>\<open>str.lower\<close>, \<^verbatim>\<open>str.strip\<close> and slicing are
  modelled exactly on that range; text with code points beyond it is outside the model.
\<close>

subsection \<open>Exceptions\<close>

text \<open>An exception is modelled by the text that \<^verbatim>\<open>str(e)\<close> gives for it.\<close>

datatype exn = Exn string

fun exn_str :: "exn \<Rightarrow> string" where
  "exn_str (Exn s) = s"

subsection \<open>Values\<close>

text \<open>
  The values that travel as JSON between the mail client, the backend and the chat
  client. A dict is an association list in insertion order; floats do not occur in the
  handlers' own data and are left out.
\<close>

datatype pyval =
    PNone
  | PBool bool
  | PInt int
  | PStr string
  | PList "pyval list"
  | PDict "(string \<times> pyval) list"

type_synonym dict = "(string \<times> pyval) list"

text \<open>Truth value testing, as \<^verbatim>\<open>not x\<close> and \<^verbatim>\<open>x or y\<close> use it.\<close>

fun truthy :: "pyval \<Rightarrow> bool" where
  "truthy PNone = False"
| "truthy (PBool b) = b"
| "truthy (PInt i) = (i \<noteq> 0)"
| "truthy (PStr s) = (s \<noteq> [])"
| "truthy (PList xs) = (xs \<noteq> [])"
| "truthy (PDict d) = (d \<noteq> [])"

definition py_or :: "pyval \<Rightarrow> pyval \<Rightarrow> pyval" where
  "py_or a b = (if truthy a then a else b)"

fun type_name :: "pyval \<Rightarrow> string" where
  "type_name PNone = ''NoneType''"
| "type_name (PBool b) = ''bool''"
| "type_name (PInt i) = ''int''"
| "type_name (PStr s) = ''str''"
| "type_name (PList xs) = ''list''"
| "type_name (PDict d) = ''dict''"

definition quoted :: "string \<Rightarrow> string" where
  "quoted s = CHR 0x27 # s @ [CHR 0x27]"

text \<open>\<^verbatim>\<open>k in d\<close>, \<^verbatim>\<open>d.get(k)\<close>, \<^verbatim>\<open>d.get(k, default)\<close> and \<^verbatim>\<open>d[k] = v\<close> on a dict.\<close>

definition has_key :: "dict \<Rightarrow> string \<Rightarrow> bool" where
  "has_key d k = (k \<in> set (map fst d))"

definition dict_get_default :: "dict \<Rightarrow> string \<Rightarrow> pyval \<Rightarrow> pyval" where
  "dict_get_default d k dflt = (case map_of d k of None \<Rightarrow> dflt | Some v \<Rightarrow> v)"

definition dict_get :: "dict \<Rightarrow> string \<Rightarrow> pyval" where
  "dict_get d k = dict_get_default d k PNone"

definition dict_set :: "dict \<Rightarrow> string \<Rightarrow> pyval \<Rightarrow> dict" where
  "dict_set d k v = AList.update k v d"

text \<open>\<^verbatim>\<open>d.update(items)\<close>: the items are stored one after the other.\<close>

fun dict_update :: "dict \<Rightarrow> dict \<Rightarrow> dict" where
  "dict_update d [] = d"
| "dict_update d ((k, v) # items) = dict_update (dict_set d k v) items"

text \<open>
  \<^verbatim>\<open>m.get(k)\<close> on a value that is not a dict: the method is missing and the attribute
  access raises AttributeError.
\<close>

definition no_attribute :: "pyval \<Rightarrow> string \<Rightarrow> exn" where
  "no_attribute m name =
     Exn (quoted (type_name m) @ '' object has no attribute '' @ quoted name)"

text \<open>
  \<^verbatim>\<open>v[:n]\<close>: a prefix of a string or of a list. A dict takes no slice as a key and the
  other values are not subscriptable: TypeError (the message is the one of CPython up
  to 3.11).
\<close>

definition slice_to :: "nat \<Rightarrow> pyval \<Rightarrow> exn + pyval" where
  "slice_to n v =
     (case v of
        PStr s \<Rightarrow> Inr (PStr (take n s))
      | PList xs \<Rightarrow> Inr (PList (take n xs))
      | PDict d \<Rightarrow> Inl (Exn (''unhashable type: '' @ quoted ''slice''))
      | _ \<Rightarrow> Inl (Exn (quoted (type_name v) @ '' object is not subscriptable'')))"

subsection \<open>Strings\<close>

text \<open>\<^verbatim>\<open>str.isspace\<close> for one character below U+0100.\<close>

definition is_space :: "char \<Rightarrow> bool" where
  "is_space c =
     (let n = (of_char c :: nat)
      in (9 \<le> n \<and> n \<le> 13) \<or> (28 \<le> n \<and> n \<le> 32) \<or> n = 133 \<or> n = 160)"

text \<open>\<^verbatim>\<open>s.strip()\<close>: leading and trailing whitespace removed.\<close>

definition str_strip :: "string \<Rightarrow> string" where
  "str_strip s = rev (dropWhile is_space (rev (dropWhile is_space s)))"

text \<open>\<^verbatim>\<open>s.lower()\<close>: A to Z and the upper-case letters of Latin-1 move up by 32.\<close>

definition lower_char :: "char \<Rightarrow> char" where
  "lower_char c =
     (let n = (of_char c :: nat)
      in if (65 \<le> n \<and> n \<le> 90) \<or> (192 \<le> n \<and> n \<le> 222 \<and> n \<noteq> 215)
         then char_of (n + 32) else c)"

definition str_lower :: "string \<Rightarrow> string" where
  "str_lower s = map lower_char s"

text \<open>
  \<^verbatim>\<open>s.find(sep)\<close>: the index of the leftmost occurrence of \<open>sep\<close> in \<open>s\<close>, \<open>None\<close>
  where Python returns -1.
\<close>

fun str_find :: "string \<Rightarrow> string \<Rightarrow> nat option" where
  "str_find sep [] = (if sep = [] then Some 0 else None)"
| "str_find sep (c # cs) =
     (if prefix sep (c # cs) then Some 0 else map_option Suc (str_find sep cs))"

text \<open>\<^verbatim>\<open>sep in s\<close> for two strings.\<close>

definition str_contains :: "string \<Rightarrow> string \<Rightarrow> bool" where
  "str_contains sep s = (str_find sep s \<noteq> None)"

text \<open>
  \<^verbatim>\<open>s.split(sep)\<close> is a loop over \<^verbatim>\<open>find\<close>: the text before the leftmost
  occurrence is one segment and the search goes on behind that occurrence; the text left
  when no occurrence remains is the last segment. An empty separator raises ValueError.
  The loop ends because each round drops at least the separator, which is not empty.
\<close>

function split_loop :: "char \<Rightarrow> string \<Rightarrow> string \<Rightarrow> string list" where
  "split_loop c0 sep s =
     (case str_find (c0 # sep) s of
        None \<Rightarrow> [s]
      | Some j \<Rightarrow> take j s # split_loop c0 sep (drop (j + length (c0 # sep)) s))"
  by pat_completeness auto
termination
proof (relation "measure (\<lambda>(c0, sep, s). length s)")
  show "wf (measure (\<lambda>(c0, sep, s). length s))"
    by simp
next
  fix c0 :: char and sep s :: string and j :: nat
  assume found: "str_find (c0 # sep) s = Some j"
  have bound: "str_find (c0 # sep) t = Some k \<Longrightarrow> k + length (c0 # sep) \<le> length t" for t k
    by (induction t arbitrary: k) (auto split: if_splits dest: prefix_length_le)
  from bound [OF found]
  show "((c0, sep, drop (j + length (c0 # sep)) s), (c0, sep, s))
          \<in> measure (\<lambda>(c0, sep, s). length s)"
    by simp
qed

declare split_loop.simps [simp del]

definition str_split :: "string \<Rightarrow> string \<Rightarrow> exn + string list" where
  "str_split sep s =
     (case sep of
        [] \<Rightarrow> Inl (Exn ''empty separator'')
      | c0 # sep' \<Rightarrow> Inr (split_loop c0 sep' s))"

text \<open>\<^verbatim>\<open>xs[i]\<close> for an index that is not negative: IndexError out of range.\<close>

definition py_index :: "'a list \<Rightarrow> nat \<Rightarrow> exn + 'a" where
  "py_index xs i = (if i < length xs then Inr (xs ! i) else Inl (Exn ''list index out of range''))"

subsection \<open>Numbers and text\<close>

definition is_digit :: "char \<Rightarrow> bool" where
  "is_digit c = (let n = (of_char c :: nat) in 48 \<le> n \<and> n \<le> 57)"

definition digit_val :: "char \<Rightarrow> int" where
  "digit_val c = int (of_char c) - 48"

text \<open>
  The digit part of a decimal literal: digits, with single underscores allowed between
  two digits.
\<close>

fun digits_ok :: "string \<Rightarrow> bool" where
  "digits_ok [] = False"
| "digits_ok [c] = is_digit c"
| "digits_ok (c # d # r) =
     (is_digit c \<and> (if d = CHR ''_'' then digits_ok r else digits_ok (d # r)))"

definition digits_value :: "string \<Rightarrow> int" where
  "digits_value ds = foldl (\<lambda>a c. 10 * a + digit_val c) 0 (filter is_digit ds)"

text \<open>
  The whitespace that \<^verbatim>\<open>int\<close> drops around a literal: tab to carriage return and
  the space, and of the characters from U+007F on those that are whitespace, here U+0085
  and U+00A0. The separators U+001C to U+001F are whitespace for \<^verbatim>\<open>strip\<close> but not
  for \<^verbatim>\<open>int\<close>.
\<close>

definition int_space :: "char \<Rightarrow> bool" where
  "int_space c =
     (let n = (of_char c :: nat)
      in (9 \<le> n \<and> n \<le> 13) \<or> n = 32 \<or> n = 133 \<or> n = 160)"

definition int_strip :: "string \<Rightarrow> string" where
  "int_strip s = rev (dropWhile int_space (rev (dropWhile int_space s)))"

text \<open>
  \<^verbatim>\<open>int(s)\<close> for a string, base 10: surrounding whitespace is dropped, one sign is
  allowed, and anything else than a digit part raises ValueError (\<open>None\<close> here; both
  callers drop the exception). CPython from 3.11 on also refuses more than 4300 digits.
\<close>

definition py_int :: "string \<Rightarrow> int option" where
  "py_int s =
     (let t = int_strip s;
          neg = (t \<noteq> [] \<and> hd t = CHR ''-'');
          ds = (if t \<noteq> [] \<and> (hd t = CHR ''-'' \<or> hd t = CHR ''+'') then tl t else t)
      in if digits_ok ds \<and> length (filter is_digit ds) \<le> 4300
         then Some (if neg then - digits_value ds else digits_value ds)
         else None)"

text \<open>\<^verbatim>\<open>str(n)\<close> for an integer that is not negative.\<close>

fun str_nat :: "nat \<Rightarrow> string" where
  "str_nat n =
     (if n < 10 then [char_of (48 + n)]
      else str_nat (n div 10) @ [char_of (48 + n mod 10)])"

declare str_nat.simps [simp del]

definition nl :: string where
  "nl = [CHR 0x0A]"

section \<open>Chat client: intent dispatch\<close>

text \<open>
  The chat input handler of \<^verbatim>\<open>Streamlit_app.py\<close> computes
  \<^verbatim>\<open>p = prompt.lower().strip()\<close> and runs an \<^verbatim>\<open>if/elif/else\<close> chain over substring
  tests of \<open>p\<close>. The branch taken is the intent.
\<close>

datatype intent = LIST_EMAILS | SUMMARIZE | SEND_EMAIL | UNKNOWN

definition classify :: "string \<Rightarrow> intent" where
  "classify p =
     (if str_contains ''list'' p \<and> str_contains ''email'' p then LIST_EMAILS
      else if str_contains ''summarize'' p then SUMMARIZE
      else if str_contains ''send an email to'' p then SEND_EMAIL
      else UNKNOWN)"

definition intent_of :: "string \<Rightarrow> intent" where
  "intent_of prompt = classify (str_strip (str_lower prompt))"

subsection \<open>The send-email extractor\<close>

text \<open>
  The body of the \<^verbatim>\<open>try\<close> block of the send branch, applied to the prompt as typed:
  \<^verbatim>\<open>
  parts = prompt.split("send an email to")[1].strip().split("saying")
  recipient = parts[0].strip()
  body = parts[1].strip() if len(parts) > 1 else "Hello!"
  \<close>
  \<open>tail_params\<close> is the part of the chain behind the index \<^verbatim>\<open>[1]\<close>.
\<close>

definition tail_params :: "string \<Rightarrow> exn + string \<times> string" where
  "tail_params seg =
     (case str_split ''saying'' (str_strip seg) of
        Inl e \<Rightarrow> Inl e
      | Inr parts \<Rightarrow>
          (case py_index parts 0 of
             Inl e \<Rightarrow> Inl e
           | Inr p0 \<Rightarrow>
               (if length parts > 1
                then (case py_index parts 1 of
                        Inl e \<Rightarrow> Inl e
                      | Inr p1 \<Rightarrow> Inr (str_strip p0, str_strip p1))
                else Inr (str_strip p0, ''Hello!''))))"

definition extract_try :: "string \<Rightarrow> exn + string \<times> string" where
  "extract_try prompt =
     (case str_split ''send an email to'' prompt of
        Inl e \<Rightarrow> Inl e
      | Inr segs \<Rightarrow>
          (case py_index segs 1 of
             Inl e \<Rightarrow> Inl e
           | Inr seg \<Rightarrow> tail_params seg))"

text \<open>The bare \<^verbatim>\<open>except\<close> replaces any exception by the two placeholders.\<close>

definition send_extract :: "string \<Rightarrow> string \<times> string" where
  "send_extract prompt =
     (case extract_try prompt of
        Inl e \<Rightarrow> (''unknown@example.com'', ''Hello!'')
      | Inr rb \<Rightarrow> rb)"

text \<open>\<^verbatim>\<open>subject = body[:30] or "No subject"\<close>\<close>

definition subject_of :: "string \<Rightarrow> string" where
  "subject_of body = (if take 30 body = [] then ''No subject'' else take 30 body)"

text \<open>Recipient, body and subject as the send branch passes them on.\<close>

definition send_params :: "string \<Rightarrow> string \<times> string \<times> string" where
  "send_params prompt =
     (case send_extract prompt of (recipient, body) \<Rightarrow> (recipient, body, subject_of body))"

text \<open>
  The text between the leftmost occurrence of \<open>sep\<close> and the next occurrence behind it
  (all the rest when there is none); \<open>None\<close> when \<open>sep\<close> does not occur.
\<close>

definition segment_after :: "string \<Rightarrow> string \<Rightarrow> string option" where
  "segment_after sep s =
     (case str_find sep s of
        None \<Rightarrow> None
      | Some j \<Rightarrow>
          (let rest = drop (j + length sep) s
           in case str_find sep rest of None \<Rightarrow> Some rest | Some k \<Rightarrow> Some (take k rest)))"

text \<open>
  The extractor as the specification words it: everything behind the phrase
  "send an email to" is handed to the "saying" step, and the placeholders stand in when
  the phrase is missing.
\<close>

definition spec_send_params :: "string \<Rightarrow> string \<times> string \<times> string" where
  "spec_send_params text =
     (case str_find ''send an email to'' text of
        None \<Rightarrow> (''unknown@example.com'', ''Hello!'', subject_of ''Hello!'')
      | Some j \<Rightarrow>
          (case tail_params (drop (j + length ''send an email to'') text) of
             Inl e \<Rightarrow> (''unknown@example.com'', ''Hello!'', subject_of ''Hello!'')
           | Inr (recipient, body) \<Rightarrow> (recipient, body, subject_of body)))"

subsection \<open>The dispatch\<close>

text \<open>
  What each branch of the chain asks of the backend: \<^verbatim>\<open>list_emails(limit=3)\<close>,
  \<^verbatim>\<open>summarize_emails(limit=5)\<close>, \<^verbatim>\<open>send_email(recipient, subject, body)\<close>, or the
  help text without any call.
\<close>

datatype action = CallList nat | CallSummarize nat | CallSend string string string | ShowHelp

definition dispatch :: "string \<Rightarrow> action" where
  "dispatch prompt =
     (case classify (str_strip (str_lower prompt)) of
        LIST_EMAILS \<Rightarrow> CallList 3
      | SUMMARIZE \<Rightarrow> CallSummarize 5
      | SEND_EMAIL \<Rightarrow>
          (case send_params prompt of (recipient, body, subject) \<Rightarrow>
             CallSend recipient subject body)
      | UNKNOWN \<Rightarrow> ShowHelp)"

subsection \<open>Backend calls\<close>

text \<open>
  \<^verbatim>\<open>requests.get\<close> and \<^verbatim>\<open>requests.post\<close> are parameters: functions of the URL,
  the query parameters or the JSON payload, and the timeout in seconds, that return a
  response or raise (a timeout raises like any other failure). Of a response the helpers
  use two methods: \<^verbatim>\<open>raise_for_status()\<close>, which raises for a status from 400 on, and
  \<^verbatim>\<open>json()\<close>, which returns the decoded body or raises. Each helper returns its result
  and the request it made.
\<close>

definition BASE_URL :: string where
  "BASE_URL = ''http://127.0.0.1:8000/gmail/''"

definition SEND_URL :: string where
  "SEND_URL = BASE_URL @ ''send/''"

definition LIST_URL :: string where
  "LIST_URL = BASE_URL @ ''list/''"

definition SUMMARY_URL :: string where
  "SUMMARY_URL = BASE_URL @ ''summary/''"

record http_response =
  raise_for_status :: "exn option"
  json :: "exn + pyval"

datatype http_call = HttpGet string dict nat | HttpPost string pyval nat

fun timeout_of :: "http_call \<Rightarrow> nat" where
  "timeout_of (HttpGet url params timeout) = timeout"
| "timeout_of (HttpPost url payload timeout) = timeout"

definition list_emails ::
  "(string \<Rightarrow> dict \<Rightarrow> nat \<Rightarrow> exn + http_response) \<Rightarrow> int \<Rightarrow> pyval \<times> http_call list" where
  "list_emails requests_get limit =
     (case requests_get LIST_URL [(''limit'', PInt limit)] 10 of
        Inl e \<Rightarrow> PDict [(''error'', PStr (exn_str e))]
      | Inr resp \<Rightarrow>
          (case raise_for_status resp of
             Some e \<Rightarrow> PDict [(''error'', PStr (exn_str e))]
           | None \<Rightarrow>
               (case json resp of
                  Inl e \<Rightarrow> PDict [(''error'', PStr (exn_str e))]
                | Inr v \<Rightarrow> v)),
      [HttpGet LIST_URL [(''limit'', PInt limit)] 10])"

definition summarize_emails ::
  "(string \<Rightarrow> dict \<Rightarrow> nat \<Rightarrow> exn + http_response) \<Rightarrow> int \<Rightarrow> pyval \<times> http_call list" where
  "summarize_emails requests_get limit =
     (case requests_get SUMMARY_URL [(''limit'', PInt limit)] 10 of
        Inl e \<Rightarrow> PDict [(''error'', PStr (exn_str e))]
      | Inr resp \<Rightarrow>
          (case raise_for_status resp of
             Some e \<Rightarrow> PDict [(''error'', PStr (exn_str e))]
           | None \<Rightarrow>
               (case json resp of
                  Inl e \<Rightarrow> PDict [(''error'', PStr (exn_str e))]
                | Inr v \<Rightarrow> v)),
      [HttpGet SUMMARY_URL [(''limit'', PInt limit)] 10])"

definition send_email ::
  "(string \<Rightarrow> pyval \<Rightarrow> nat \<Rightarrow> exn + http_response) \<Rightarrow> string \<Rightarrow> string \<Rightarrow> string
     \<Rightarrow> pyval \<times> http_call list" where
  "send_email requests_post to subject body =
     (let payload = PDict [(''to'', PStr to), (''subject'', PStr subject), (''body'', PStr body)]
      in (case requests_post SEND_URL payload 15 of
            Inl e \<Rightarrow> PDict [(''error'', PStr (exn_str e))]
          | Inr resp \<Rightarrow>
              (case raise_for_status resp of
                 Some e \<Rightarrow> PDict [(''error'', PStr (exn_str e))]
               | None \<Rightarrow>
                   (case json resp of
                      Inl e \<Rightarrow> PDict [(''error'', PStr (exn_str e))]
                    | Inr v \<Rightarrow> v)),
          [HttpPost SEND_URL payload 15]))"

subsection \<open>Formatting the list reply\<close>

text \<open>
  \<^verbatim>\<open>s.isdigit()\<close>: not empty and every character a digit; below U+0100 the
  superscripts one, two and three are digits too.
\<close>

definition str_isdigit :: "string \<Rightarrow> bool" where
  "str_isdigit s =
     (s \<noteq> [] \<and> list_all (\<lambda>c. is_digit c \<or> of_char c \<in> {178, 179, 185 :: nat}) s)"

text \<open>
  The inner \<^verbatim>\<open>try\<close> of \<^verbatim>\<open>format_time\<close> up to \<^verbatim>\<open>int(raw_time)\<close>: the value in
  milliseconds when \<^verbatim>\<open>raw_time\<close> is an integer (a boolean is one) or a string of digits
  that \<^verbatim>\<open>int\<close> accepts, \<open>None\<close> when the test is false or something raises.
\<close>

definition epoch_ms :: "pyval \<Rightarrow> int option" where
  "epoch_ms raw_time =
     (case raw_time of
        PInt i \<Rightarrow> Some i
      | PBool b \<Rightarrow> Some (if b then 1 else 0)
      | PStr s \<Rightarrow> (if str_isdigit s then py_int s else None)
      | _ \<Rightarrow> None)"

text \<open>
  \<^verbatim>\<open>format_time\<close>. The two library conversions are parameters, each followed by
  \<^verbatim>\<open>strftime("%Y-%m-%d %H:%M")\<close>: \<open>parsedate\<close> is \<^verbatim>\<open>parsedate_to_datetime\<close> of the raw
  value, \<open>fromtimestamp\<close> is \<^verbatim>\<open>datetime.fromtimestamp\<close> of the milliseconds divided by
  1000. \<open>render\<close> is Python's \<^verbatim>\<open>str\<close> of a value.
\<close>

definition format_time ::
  "(pyval \<Rightarrow> exn + string) \<Rightarrow> (int \<Rightarrow> exn + string) \<Rightarrow> (pyval \<Rightarrow> string) \<Rightarrow> pyval \<Rightarrow> string" where
  "format_time parsedate fromtimestamp render raw_time =
     (if \<not> truthy raw_time then []
      else case parsedate raw_time of
             Inr text \<Rightarrow> text
           | Inl e \<Rightarrow>
               (case epoch_ms raw_time of
                  None \<Rightarrow> render raw_time
                | Some ms \<Rightarrow>
                    (case fromtimestamp ms of
                       Inr text \<Rightarrow> text
                     | Inl e' \<Rightarrow> render raw_time)))"

text \<open>
  The four lines that the loop of the list branch adds for the item \<open>e\<close> with the number
  \<open>i\<close>:
  \<^verbatim>\<open>
  reply += f"**{i}. {e.get('subject','(No subject)')}**\n"
  reply += f"- From: {e.get('from')}\n"
  reply += f"- Time: {format_time(e.get('time'))}\n"
  reply += f"- Body: {e.get('body')}\n\n"
  \<close>
  \<open>ftime\<close> is \<^verbatim>\<open>format_time\<close> with its library conversions.
\<close>

definition entry_text :: "(pyval \<Rightarrow> string) \<Rightarrow> (pyval \<Rightarrow> string) \<Rightarrow> nat \<Rightarrow> dict \<Rightarrow> string" where
  "entry_text render ftime i e =
     ''**'' @ str_nat i @ ''. ''
       @ render (dict_get_default e ''subject'' (PStr ''(No subject)'')) @ ''**'' @ nl
     @ ''- From: '' @ render (dict_get e ''from'') @ nl
     @ ''- Time: '' @ ftime (dict_get e ''time'') @ nl
     @ ''- Body: '' @ render (dict_get e ''body'') @ nl @ nl"

text \<open>
  \<^verbatim>\<open>for i, e in enumerate(data, 1)\<close>; an item that is not a dict has no \<^verbatim>\<open>get\<close> and
  the loop raises.
\<close>

fun list_reply_loop ::
  "(pyval \<Rightarrow> string) \<Rightarrow> (pyval \<Rightarrow> string) \<Rightarrow> nat \<Rightarrow> pyval list \<Rightarrow> string \<Rightarrow> exn + string" where
  "list_reply_loop render ftime i [] reply = Inr reply"
| "list_reply_loop render ftime i (e # es) reply =
     (case e of
        PDict d \<Rightarrow> list_reply_loop render ftime (Suc i) es (reply @ entry_text render ftime i d)
      | _ \<Rightarrow> Inl (no_attribute e ''get''))"

text \<open>
  The heading of the reply; its first character, an envelope (U+1F4E9), lies beyond
  U+00FF and is written as the four bytes of its UTF-8 form.
\<close>

definition list_heading :: string where
  "list_heading = [CHR 0xF0, CHR 0x9F, CHR 0x93, CHR 0xA9] @ '' **Latest Emails:**'' @ nl @ nl"

definition list_reply ::
  "(pyval \<Rightarrow> string) \<Rightarrow> (pyval \<Rightarrow> string) \<Rightarrow> pyval list \<Rightarrow> exn + string" where
  "list_reply render ftime data = list_reply_loop render ftime 1 data list_heading"

text \<open>
  Reading the reply back. The lines of a text, the number of a line of the form
  \<^verbatim>\<open>**<digits>. ...\<close>, and the numbers of the numbered lines of a text in order.
\<close>

fun split_lines :: "string \<Rightarrow> string list" where
  "split_lines [] = [[]]"
| "split_lines (c # cs) =
     (if c = CHR 0x0A then [] # split_lines cs
      else (case split_lines cs of [] \<Rightarrow> [[c]] | l # ls \<Rightarrow> (c # l) # ls))"

definition nat_of_digits :: "string \<Rightarrow> nat" where
  "nat_of_digits ds = foldl (\<lambda>a c. 10 * a + (of_char c - 48)) 0 ds"

definition entry_number :: "string \<Rightarrow> nat option" where
  "entry_number l =
     (case l of
        a # b # r \<Rightarrow>
          (if a = CHR ''*'' \<and> b = CHR ''*'' \<and> takeWhile is_digit r \<noteq> []
              \<and> prefix ''. '' (dropWhile is_digit r)
           then Some (nat_of_digits (takeWhile is_digit r))
           else None)
      | _ \<Rightarrow> None)"

definition numbered_entries :: "string \<Rightarrow> nat list" where
  "numbered_entries text = List.map_filter entry_number (split_lines text)"

text \<open>
  A text without a line break. A text none of whose lines after the first reads as a
  numbered line, and an item all of whose rendered fields are such texts. The entries of
  the items \<open>ds\<close> numbered from \<open>i\<close> on, one after the other.
\<close>

definition one_line :: "string \<Rightarrow> bool" where
  "one_line s = (CHR 0x0A \<notin> set s)"

definition clean_text :: "string \<Rightarrow> bool" where
  "clean_text t = list_all (\<lambda>l. entry_number l = None) (tl (split_lines t))"

definition fields_clean :: "(pyval \<Rightarrow> string) \<Rightarrow> (pyval \<Rightarrow> string) \<Rightarrow> dict \<Rightarrow> bool" where
  "fields_clean render ftime e =
     (clean_text (render (dict_get_default e ''subject'' (PStr ''(No subject)'')))
      \<and> clean_text (render (dict_get e ''from''))
      \<and> clean_text (ftime (dict_get e ''time''))
      \<and> clean_text (render (dict_get e ''body'')))"

definition entries_text ::
  "(pyval \<Rightarrow> string) \<Rightarrow> (pyval \<Rightarrow> string) \<Rightarrow> nat \<Rightarrow> dict list \<Rightarrow> string" where
  "entries_text render ftime i ds =
     concat (map (\<lambda>(j, e). entry_text render ftime j e) (zip [i..<i + length ds] ds))"

section \<open>Backend handlers\<close>

text \<open>
  Each view of \<^verbatim>\<open>Main.py\<close> is a function from the request to the response. The
  operations of the mail client and of the completion API are not part of the
  repository's sources: they are parameters, functions that return a value or raise, and
  every handler returns, next to its response, the list of the calls it made to them.
\<close>

record response =
  resp_status :: nat
  resp_data :: pyval

datatype call =
    SendMessage string string string
  | ListMessages dict
  | ModifyLabels pyval dict
  | ChatCompletion dict

definition ok_response :: "pyval \<Rightarrow> response" where
  "ok_response v = \<lparr>resp_status = 200, resp_data = v\<rparr>"

definition bad_request :: "pyval \<Rightarrow> response" where
  "bad_request v = \<lparr>resp_status = 400, resp_data = v\<rparr>"

text \<open>\<^verbatim>\<open>Response({"error": str(e)}, status=500)\<close>, the end of every \<^verbatim>\<open>except\<close> branch.\<close>

definition error_response :: "exn \<Rightarrow> response" where
  "error_response e = \<lparr>resp_status = 500, resp_data = PDict [(''error'', PStr (exn_str e))]\<rparr>"

subsection \<open>send\<close>

text \<open>
  The validated data of the serializer. \<^verbatim>\<open>SendEmailSerializer\<close> itself is not among
  the sources: the view takes it as a parameter that answers with the field errors or
  with the validated request.
\<close>

record send_request =
  req_to :: string
  req_subject :: string
  req_body :: string

text \<open>
  The normalisation of what \<^verbatim>\<open>send_message\<close> returned:
  \<^verbatim>\<open>
  result = {"ok": True}
  if isinstance(sent_result, dict):
      if "id" in sent_result:
          result["message_id"] = sent_result["id"]
      result.update({k: v for k, v in sent_result.items() if k not in result})
  else:
      result["result"] = sent_result
  \<close>
\<close>

definition send_result :: "pyval \<Rightarrow> dict" where
  "send_result sent_result =
     (let result = [(''ok'', PBool True)]
      in case sent_result of
           PDict sd \<Rightarrow>
             (let result1 = (if has_key sd ''id''
                             then dict_set result ''message_id'' (dict_get sd ''id'')
                             else result)
              in dict_update result1 (filter (\<lambda>(k, v). \<not> has_key result1 k) sd))
         | _ \<Rightarrow> dict_set result ''result'' sent_result)"

definition send_view ::
  "(pyval \<Rightarrow> pyval + send_request) \<Rightarrow> (string \<Rightarrow> string \<Rightarrow> string \<Rightarrow> exn + pyval)
     \<Rightarrow> pyval \<Rightarrow> response \<times> call list" where
  "send_view serializer send_message request_data =
     (case serializer request_data of
        Inl errors \<Rightarrow> (bad_request errors, [])
      | Inr v \<Rightarrow>
          (case send_message (req_to v) (req_subject v) (req_body v) of
             Inl e \<Rightarrow>
               (error_response e, [SendMessage (req_to v) (req_subject v) (req_body v)])
           | Inr sent_result \<Rightarrow>
               (ok_response (PDict (send_result sent_result)),
                [SendMessage (req_to v) (req_subject v) (req_body v)])))"

subsection \<open>spam\<close>

definition label_call ::
  "(pyval \<Rightarrow> dict \<Rightarrow> exn + pyval) \<Rightarrow> pyval \<Rightarrow> dict \<Rightarrow> response \<times> call list" where
  "label_call modify_message_labels message_id kwargs =
     (case modify_message_labels message_id kwargs of
        Inl e \<Rightarrow> (error_response e, [ModifyLabels message_id kwargs])
      | Inr res \<Rightarrow>
          (ok_response (PDict [(''ok'', PBool True), (''result'', res)]),
           [ModifyLabels message_id kwargs]))"

definition manage_spam ::
  "(pyval \<Rightarrow> dict \<Rightarrow> exn + pyval) \<Rightarrow> dict \<Rightarrow> response \<times> call list" where
  "manage_spam modify_message_labels body =
     (let message_id = dict_get body ''message_id'';
          action = dict_get body ''action''
      in if \<not> truthy message_id \<or> \<not> truthy action
         then (bad_request (PDict [(''error'', PStr ''message_id and action required'')]), [])
         else if action = PStr ''mark_spam''
         then label_call modify_message_labels message_id
                [(''add_labels'', PList [PStr ''SPAM''])]
         else if action = PStr ''unspam'' \<or> action = PStr ''unmark_spam''
         then label_call modify_message_labels message_id
                [(''remove_labels'', PList [PStr ''SPAM''])]
         else (bad_request (PDict [(''error'', PStr ''unknown action'')]), []))"

subsection \<open>list\<close>

text \<open>
  \<^verbatim>\<open>
  try:
      limit = int(request.GET.get("limit", default))
  except Exception:
      limit = default
  \<close>
  The query parameter is a string when it is present; \<^verbatim>\<open>int\<close> of the default is the
  default.
\<close>

definition parse_limit :: "int \<Rightarrow> string option \<Rightarrow> int" where
  "parse_limit dflt raw =
     (case raw of
        None \<Rightarrow> dflt
      | Some s \<Rightarrow> (case py_int s of None \<Rightarrow> dflt | Some n \<Rightarrow> n))"

definition list_limit :: "string option \<Rightarrow> int" where
  "list_limit raw = parse_limit 10 raw"

definition summary_limit :: "string option \<Rightarrow> int" where
  "summary_limit raw = parse_limit 5 raw"

text \<open>
  The dict that \<^verbatim>\<open>list_view\<close> appends for one raw message \<open>m\<close>; \<open>b\<close> is the
  truncated body, \<^verbatim>\<open>(m.get("body") or "")[:2000]\<close>, the one entry that can raise.
\<close>

definition simple_message :: "dict \<Rightarrow> pyval \<Rightarrow> dict" where
  "simple_message d b =
     [(''id'', dict_get d ''id''),
      (''threadId'', dict_get d ''threadId''),
      (''from'', py_or (py_or (dict_get d ''from'') (dict_get d ''sender''))
                   (dict_get d ''emailFrom'')),
      (''to'', dict_get d ''to''),
      (''subject'', py_or (py_or (dict_get d ''subject'') (dict_get d ''title''))
                      (dict_get d ''header_subject'')),
      (''snippet'', dict_get d ''snippet''),
      (''time'', py_or (py_or (dict_get d ''time'') (dict_get d ''date''))
                   (dict_get d ''internalDate'')),
      (''body'', b)]"

definition simplify_message :: "pyval \<Rightarrow> exn + pyval" where
  "simplify_message m =
     (case m of
        PDict d \<Rightarrow>
          (case slice_to 2000 (py_or (dict_get d ''body'') (PStr [])) of
             Inl e \<Rightarrow> Inl e
           | Inr b \<Rightarrow> Inr (PDict (simple_message d b)))
      | _ \<Rightarrow> Inl (no_attribute m ''get''))"

text \<open>
  Words for the statements about one message: the value of \<^verbatim>\<open>x or y or z\<close> (the
  first operand that is truthy, the last one when none is), whether a value is a string,
  the text of a string value, and the body as the list keeps it.
\<close>

fun first_truthy :: "pyval list \<Rightarrow> pyval" where
  "first_truthy [] = PNone"
| "first_truthy [x] = x"
| "first_truthy (x # y # ys) = (if truthy x then x else first_truthy (y # ys))"

definition is_str :: "pyval \<Rightarrow> bool" where
  "is_str v = (case v of PStr s \<Rightarrow> True | _ \<Rightarrow> False)"

definition body_text :: "pyval \<Rightarrow> string" where
  "body_text v = (case v of PStr s \<Rightarrow> s | _ \<Rightarrow> [])"

definition short_body :: "dict \<Rightarrow> pyval" where
  "short_body d = PStr (take 2000 (body_text (dict_get d ''body'')))"

text \<open>The \<^verbatim>\<open>for\<close> loop over the messages; the first exception ends it.\<close>

fun simplify_all :: "pyval list \<Rightarrow> pyval list \<Rightarrow> exn + pyval list" where
  "simplify_all [] simplified = Inr simplified"
| "simplify_all (m # msgs) simplified =
     (case simplify_message m of
        Inl e \<Rightarrow> Inl e
      | Inr x \<Rightarrow> simplify_all msgs (simplified @ [x]))"

definition opt_str :: "string option \<Rightarrow> pyval" where
  "opt_str q = (case q of None \<Rightarrow> PNone | Some s \<Rightarrow> PStr s)"

definition list_view ::
  "(dict \<Rightarrow> exn + pyval list) \<Rightarrow> string option \<Rightarrow> string option \<Rightarrow> response \<times> call list" where
  "list_view list_messages q limit_raw =
     (let limit = list_limit limit_raw;
          kwargs = [(''query'', opt_str q), (''max_results'', PInt limit)]
      in case list_messages kwargs of
           Inl e \<Rightarrow> (error_response e, [ListMessages kwargs])
         | Inr msgs \<Rightarrow>
             (case simplify_all msgs [] of
                Inl e \<Rightarrow> (error_response e, [ListMessages kwargs])
              | Inr simplified \<Rightarrow> (ok_response (PList simplified), [ListMessages kwargs])))"

subsection \<open>summary\<close>

text \<open>
  The Django settings: an attribute may be missing, and
  \<^verbatim>\<open>getattr(settings, name, default)\<close> gives the default then.
\<close>

record settings =
  OPENAI_API_KEY :: "pyval option"
  OPENAI_MODEL :: "pyval option"

definition getattr :: "pyval option \<Rightarrow> pyval \<Rightarrow> pyval" where
  "getattr attr dflt = (case attr of None \<Rightarrow> dflt | Some v \<Rightarrow> v)"

text \<open>\<^verbatim>\<open>m.get("body") or m.get("snippet") or ""\<close> for one message.\<close>

definition message_snippet :: "dict \<Rightarrow> pyval" where
  "message_snippet d = py_or (py_or (dict_get d ''body'') (dict_get d ''snippet'')) (PStr [])"

definition snippet_of :: "pyval \<Rightarrow> exn + pyval" where
  "snippet_of m =
     (case m of
        PDict d \<Rightarrow> Inr (message_snippet d)
      | _ \<Rightarrow> Inl (no_attribute m ''get''))"

fun snippets_of :: "pyval list \<Rightarrow> exn + pyval list" where
  "snippets_of [] = Inr []"
| "snippets_of (m # msgs) =
     (case snippet_of m of
        Inl e \<Rightarrow> Inl e
      | Inr x \<Rightarrow> (case snippets_of msgs of Inl e \<Rightarrow> Inl e | Inr xs \<Rightarrow> Inr (x # xs)))"

text \<open>
  The prompt: \<^verbatim>\<open>prompt += f"Email {i}:\n{s}\n\n"\<close> for the snippets numbered from 1.
  \<open>render\<close> is Python's \<^verbatim>\<open>str\<close> of a value.
\<close>

fun prompt_loop :: "(pyval \<Rightarrow> string) \<Rightarrow> nat \<Rightarrow> pyval list \<Rightarrow> string \<Rightarrow> string" where
  "prompt_loop render i [] prompt = prompt"
| "prompt_loop render i (x # xs) prompt =
     prompt_loop render (Suc i) xs
       (prompt @ ''Email '' @ str_nat i @ '':'' @ nl @ render x @ nl @ nl)"

definition summary_prompt :: "(pyval \<Rightarrow> string) \<Rightarrow> pyval list \<Rightarrow> string" where
  "summary_prompt render snippets =
     prompt_loop render 1 snippets
       (''You are an assistant who summarizes a user'' @ [CHR 0x27] @ ''s recent emails. ''
        @ ''Summarize the main topics briefly and list any clear action items.'' @ nl @ nl)"

text \<open>
  \<^verbatim>\<open>resp["choices"][0]["message"]["content"].strip()\<close>, and \<^verbatim>\<open>str(resp)\<close> when any
  step of it raises.
\<close>

definition item_key :: "string \<Rightarrow> pyval \<Rightarrow> pyval option" where
  "item_key k v = (case v of PDict d \<Rightarrow> map_of d k | _ \<Rightarrow> None)"

definition item_first :: "pyval \<Rightarrow> pyval option" where
  "item_first v =
     (case v of
        PList (x # xs) \<Rightarrow> Some x
      | PStr (c # cs) \<Rightarrow> Some (PStr [c])
      | _ \<Rightarrow> None)"

definition meth_strip :: "pyval \<Rightarrow> string option" where
  "meth_strip v = (case v of PStr s \<Rightarrow> Some (str_strip s) | _ \<Rightarrow> None)"

definition summary_text :: "(pyval \<Rightarrow> string) \<Rightarrow> pyval \<Rightarrow> string" where
  "summary_text render resp =
     (case Option.bind (Option.bind (Option.bind (Option.bind
             (item_key ''choices'' resp) item_first) (item_key ''message''))
             (item_key ''content'')) meth_strip of
        None \<Rightarrow> render resp
      | Some text \<Rightarrow> text)"

text \<open>
  The keyword arguments of \<^verbatim>\<open>openai.ChatCompletion.create\<close>; the float
  \<^verbatim>\<open>temperature=0.25\<close> is a constant of the call and is not recorded.
\<close>

definition completion_args :: "pyval \<Rightarrow> string \<Rightarrow> dict" where
  "completion_args model prompt =
     [(''model'', model),
      (''messages'', PList
         [PDict [(''role'', PStr ''system''),
                 (''content'', PStr ''Summarize emails concisely and list action items.'')],
          PDict [(''role'', PStr ''user''), (''content'', PStr prompt)]]),
      (''max_tokens'', PInt 400)]"

definition summary_view ::
  "settings \<Rightarrow> (dict \<Rightarrow> exn + pyval list) \<Rightarrow> (dict \<Rightarrow> exn + pyval) \<Rightarrow> (pyval \<Rightarrow> string)
     \<Rightarrow> string option \<Rightarrow> response \<times> call list" where
  "summary_view st list_messages create render limit_raw =
     (let limit = summary_limit limit_raw;
          kwargs = [(''max_results'', PInt limit)]
      in case list_messages kwargs of
           Inl e \<Rightarrow> (error_response e, [ListMessages kwargs])
         | Inr msgs \<Rightarrow>
             (case snippets_of msgs of
                Inl e \<Rightarrow> (error_response e, [ListMessages kwargs])
              | Inr snippets \<Rightarrow>
                  if \<not> truthy (getattr (OPENAI_API_KEY st) PNone)
                  then (ok_response (PDict
                          [(''snippets'', PList snippets),
                           (''summary'', PNone),
                           (''warning'', PStr ''OPENAI_API_KEY not set in settings.'')]),
                        [ListMessages kwargs])
                  else
                    (let args = completion_args
                           (getattr (OPENAI_MODEL st) (PStr ''gpt-3.5-turbo''))
                           (summary_prompt render snippets)
                     in case create args of
                          Inl e \<Rightarrow>
                            (error_response e, [ListMessages kwargs, ChatCompletion args])
                        | Inr resp \<Rightarrow>
                            (ok_response (PDict
                               [(''snippets'', PList snippets),
                                (''summary'', PStr (summary_text render resp))]),
                             [ListMessages kwargs, ChatCompletion args]))))"

section \<open>Sample collaborators\<close>

text \<open>A field of the request data that holds a string that is not empty.\<close>

definition field_text :: "dict \<Rightarrow> string \<Rightarrow> string option" where
  "field_text d k = (case dict_get d k of PStr s \<Rightarrow> (if s = [] then None else Some s) | _ \<Rightarrow> None)"

definition field_errors :: "dict \<Rightarrow> pyval" where
  "field_errors d =
     PDict (map (\<lambda>k. (k, PList [PStr ''invalid'']))
              (filter (\<lambda>k. field_text d k = None) [''to'', ''subject'', ''body'']))"

text \<open>
  Modelled from the spec: \<^verbatim>\<open>SendEmailSerializer\<close> is not among the sources. The spec
  has the send handler "validate (to, subject, body) as non-empty strings" and return a
  client error with field-level messages otherwise. The wording of the messages is not
  given; the detail here names each failing field.
\<close>

definition SendEmailSerializer :: "pyval \<Rightarrow> pyval + send_request" where
  "SendEmailSerializer request_data =
     (case request_data of
        PDict d \<Rightarrow>
          (case (field_text d ''to'', field_text d ''subject'', field_text d ''body'') of
             (Some t, Some s, Some b) \<Rightarrow> Inr \<lparr>req_to = t, req_subject = s, req_body = b\<rparr>
           | _ \<Rightarrow> Inl (field_errors d))
      | _ \<Rightarrow> Inl (PDict [(''non_field_errors'', PList [PStr ''invalid''])]))"

text \<open>Mail clients for the examples: one answers with an id, one without.\<close>

definition returns_id :: "string \<Rightarrow> string \<Rightarrow> string \<Rightarrow> exn + pyval" where
  "returns_id t s b = Inr (PDict [(''id'', PStr ''m1''), (''threadId'', PStr ''t1'')])"

definition returns_message_id :: "string \<Rightarrow> string \<Rightarrow> string \<Rightarrow> exn + pyval" where
  "returns_message_id t s b = Inr (PDict [(''message_id'', PStr ''m1'')])"

definition sample_request :: pyval where
  "sample_request =
     PDict [(''to'', PStr ''a@b.com''), (''subject'', PStr ''Hi''), (''body'', PStr ''Hello'')]"

text \<open>
  A mail client whose list operation finds nothing and one that finds two messages, the
  settings without a key, a completion API that answers, the rendering of the values of
  the examples (strings, booleans and None) and a label operation that succeeds.
\<close>

definition empty_inbox :: "dict \<Rightarrow> exn + pyval list" where
  "empty_inbox kwargs = Inr []"

definition ann_message :: dict where
  "ann_message =
     [(''id'', PStr ''m1''), (''sender'', PStr ''ann@example.com''),
      (''title'', PStr ''Lunch''), (''body'', PStr ''Noon?'')]"

definition bob_message :: dict where
  "bob_message =
     [(''id'', PStr ''m2''), (''from'', PStr ''bob@example.com''),
      (''snippet'', PStr ''See you'')]"

definition two_messages :: "dict \<Rightarrow> exn + pyval list" where
  "two_messages kwargs = Inr [PDict ann_message, PDict bob_message]"

definition no_key :: settings where
  "no_key = \<lparr>OPENAI_API_KEY = None, OPENAI_MODEL = None\<rparr>"

definition sample_completion :: "dict \<Rightarrow> exn + pyval" where
  "sample_completion args =
     Inr (PDict [(''choices'', PList [PDict [(''message'',
            PDict [(''content'', PStr '' Two mails. '')])]])])"

definition sample_render :: "pyval \<Rightarrow> string" where
  "sample_render v =
     (case v of
        PStr s \<Rightarrow> s
      | PBool b \<Rightarrow> (if b then ''True'' else ''False'')
      | _ \<Rightarrow> ''None'')"

definition labels_modified :: "pyval \<Rightarrow> dict \<Rightarrow> exn + pyval" where
  "labels_modified message_id kwargs = Inr (PDict [(''id'', message_id)])"

text \<open>
  Requests that time out, a date parser that refuses its input, a clock that answers, the
  resulting \<^verbatim>\<open>format_time\<close>, and two items of a list response.
\<close>

definition timing_out_get :: "string \<Rightarrow> dict \<Rightarrow> nat \<Rightarrow> exn + http_response" where
  "timing_out_get url params timeout = Inl (Exn ''Read timed out.'')"

definition timing_out_post :: "string \<Rightarrow> pyval \<Rightarrow> nat \<Rightarrow> exn + http_response" where
  "timing_out_post url payload timeout = Inl (Exn ''Read timed out.'')"

definition no_date :: "pyval \<Rightarrow> exn + string" where
  "no_date raw_time = Inl (Exn ''not a date'')"

definition epoch_start :: "int \<Rightarrow> exn + string" where
  "epoch_start ms = Inr ''1970-01-01 00:00''"

definition sample_ftime :: "pyval \<Rightarrow> string" where
  "sample_ftime = format_time no_date epoch_start sample_render"

definition ann_item :: dict where
  "ann_item =
     [(''id'', PStr ''m1''), (''from'', PStr ''ann@example.com''), (''subject'', PStr ''Lunch''),
      (''time'', PNone), (''body'', PStr (''Noon?'' @ [CHR 0x0A] @ ''Bring cake.''))]"

definition bob_item :: dict where
  "bob_item =
     [(''id'', PStr ''m2''), (''from'', PStr ''bob@example.com''), (''subject'', PNone),
      (''time'', PStr ''soon''), (''body'', PStr [])]"

text \<open>An item whose body has a second line that reads as a numbered line.\<close>

definition eve_item :: dict where
  "eve_item =
     [(''id'', PStr ''m3''), (''from'', PStr ''eve@example.com''), (''subject'', PStr ''Hi''),
      (''time'', PNone),
      (''body'', PStr (''see below'' @ [CHR 0x0A] @ ''**7. not an entry**''))]"

section \<open>Facts about the string operations\<close>

lemma str_find_None_iff: "str_find sep s = None \<longleftrightarrow> \<not> sublist sep s"
  by (induction s) (auto simp: sublist_Cons_right)

lemma str_contains_sublist: "str_contains sep s \<longleftrightarrow> sublist sep s"
  by (simp add: str_contains_def str_find_None_iff)

lemma str_contains_iff: "str_contains sep s \<longleftrightarrow> (\<exists>a b. s = a @ sep @ b)"
  by (simp add: str_contains_sublist sublist_def)

lemma split_loop_hd:
  "hd (split_loop c0 sep s) = (case str_find (c0 # sep) s of None \<Rightarrow> s | Some j \<Rightarrow> take j s)"
  by (subst split_loop.simps) (simp split: option.splits)

lemma split_loop_None: "str_find (c0 # sep) s = None \<Longrightarrow> split_loop c0 sep s = [s]"
  by (subst split_loop.simps) simp

lemma split_loop_Some:
  "str_find (c0 # sep) s = Some j \<Longrightarrow>
   split_loop c0 sep s = take j s # split_loop c0 sep (drop (j + length (c0 # sep)) s)"
  by (subst split_loop.simps) simp

lemma split_loop_not_Nil: "split_loop c0 sep s \<noteq> []"
  by (subst split_loop.simps) (simp split: option.splits)

lemma split_loop_length: "1 < length (split_loop c0 sep s) \<longleftrightarrow> str_find (c0 # sep) s \<noteq> None"
proof (cases "str_find (c0 # sep) s")
  case None
  then show ?thesis by (simp add: split_loop_None)
next
  case (Some j)
  then show ?thesis
    using split_loop_not_Nil [of c0 sep "drop (j + length (c0 # sep)) s"]
    by (simp add: split_loop_Some Suc_lessI)
qed

lemma split_loop_nth1:
  assumes "str_find (c0 # sep) s = Some j"
  shows "split_loop c0 sep s ! 1 =
     (let rest = drop (j + length (c0 # sep)) s
      in case str_find (c0 # sep) rest of None \<Rightarrow> rest | Some k \<Rightarrow> take k rest)"
  using assms split_loop_not_Nil [of c0 sep "drop (j + length (c0 # sep)) s"]
  by (simp add: split_loop_Some split_loop_hd [symmetric] hd_conv_nth Let_def)

lemma index1_split:
  "(case str_split (c0 # sep) s of Inl e \<Rightarrow> Inl e | Inr segs \<Rightarrow> py_index segs 1) =
   (case segment_after (c0 # sep) s of None \<Rightarrow> Inl (Exn ''list index out of range'') | Some seg \<Rightarrow> Inr seg)"
proof (cases "str_find (c0 # sep) s")
  case None
  then show ?thesis
    by (simp add: str_split_def py_index_def segment_after_def split_loop_None)
next
  case (Some j)
  have "1 < length (split_loop c0 sep s)"
    using Some split_loop_length [of c0 sep s] by simp
  with Some split_loop_nth1 [OF Some] show ?thesis
    by (simp add: str_split_def py_index_def segment_after_def Let_def split: option.splits)
qed


lemma tail_params_closed:
  "tail_params seg =
     (let t = str_strip seg
      in case str_find ''saying'' t of
           None \<Rightarrow> Inr (str_strip t, ''Hello!'')
         | Some i \<Rightarrow>
             (let r = drop (i + length ''saying'') t
              in Inr (str_strip (take i t),
                      str_strip (case str_find ''saying'' r of None \<Rightarrow> r | Some m \<Rightarrow> take m r))))"
proof (cases "str_find ''saying'' (str_strip seg)")
  case None
  then show ?thesis
    by (simp add: tail_params_def str_split_def py_index_def split_loop_None)
next
  case (Some i)
  have len: "1 < length (split_loop CHR ''s'' ''aying'' (str_strip seg))"
    using Some split_loop_length [of "CHR ''s''" "''aying''" "str_strip seg"] by simp
  have first: "split_loop CHR ''s'' ''aying'' (str_strip seg) ! 0 = take i (str_strip seg)"
    using Some by (simp add: split_loop_Some)
  from len first split_loop_nth1 [OF Some] Some show ?thesis
    by (simp add: tail_params_def str_split_def py_index_def Let_def split_loop_not_Nil)
qed

lemma extract_try_closed:
  "extract_try prompt =
     (case segment_after ''send an email to'' prompt of
        None \<Rightarrow> Inl (Exn ''list index out of range'')
      | Some seg \<Rightarrow> tail_params seg)"
proof -
  have "extract_try prompt =
      (case (case str_split ''send an email to'' prompt of Inl e \<Rightarrow> Inl e
             | Inr segs \<Rightarrow> py_index segs 1) of
         Inl e \<Rightarrow> Inl e | Inr seg \<Rightarrow> tail_params seg)"
    by (simp add: extract_try_def split: sum.splits)
  also have "\<dots> = (case segment_after ''send an email to'' prompt of
        None \<Rightarrow> Inl (Exn ''list index out of range'')
      | Some seg \<Rightarrow> tail_params seg)"
    by (simp only: index1_split) (simp split: option.splits)
  finally show ?thesis .
qed

lemma sublist_str_lower:
  assumes "sublist sep s" and "map lower_char sep = sep"
  shows "sublist sep (str_lower s)"
proof -
  from assms(1) obtain a b where "s = a @ sep @ b"
    by (auto simp: sublist_def)
  then have "str_lower s = map lower_char a @ sep @ map lower_char b"
    using assms(2) by (simp add: str_lower_def)
  then show ?thesis
    by (metis sublist_appendI)
qed

lemma dropWhile_keeps:
  assumes "x \<noteq> []" and "\<not> P (hd x)"
  shows "\<exists>a'. dropWhile P (a @ x @ b) = a' @ x @ b"
proof (induction a)
  case Nil
  from assms have "dropWhile P (x @ b) = x @ b"
    by (cases x) simp_all
  then show ?case by (metis append_Nil)
next
  case (Cons c a)
  then obtain a' where a': "dropWhile P (a @ x @ b) = a' @ x @ b" by blast
  show ?case
  proof (cases "P c")
    case True
    with a' show ?thesis by simp
  next
    case False
    then have "dropWhile P ((c # a) @ x @ b) = (c # a) @ x @ b" by simp
    then show ?thesis by blast
  qed
qed

lemma sublist_str_strip:
  assumes "sublist sep s" and "sep \<noteq> []" and "\<not> is_space (hd sep)" and "\<not> is_space (last sep)"
  shows "sublist sep (str_strip s)"
proof -
  from assms(1) obtain a b where s: "s = a @ sep @ b"
    by (auto simp: sublist_def)
  from dropWhile_keeps [where P = is_space and x = sep and a = a and b = b, OF assms(2,3)] obtain a'
    where a': "dropWhile is_space (a @ sep @ b) = a' @ sep @ b" by blast
  have r: "rev sep \<noteq> []" "\<not> is_space (hd (rev sep))"
    using assms(2,4) by (simp_all add: hd_rev)
  from dropWhile_keeps [where P = is_space and x = "rev sep" and a = "rev b"
      and b = "rev a'", OF r] obtain b'
    where b': "dropWhile is_space (rev b @ rev sep @ rev a') = b' @ rev sep @ rev a'" by blast
  have "str_strip s = a' @ sep @ rev b'"
    by (simp add: str_strip_def s a' b')
  then show ?thesis
    by (metis sublist_appendI)
qed

lemma words_stay:
  "str_contains ''list'' prompt \<Longrightarrow> str_contains ''list'' (str_strip (str_lower prompt))"
  "str_contains ''email'' prompt \<Longrightarrow> str_contains ''email'' (str_strip (str_lower prompt))"
  "str_contains ''summarize'' prompt \<Longrightarrow> str_contains ''summarize'' (str_strip (str_lower prompt))"
  "str_contains ''send an email to'' prompt
     \<Longrightarrow> str_contains ''send an email to'' (str_strip (str_lower prompt))"
  by (simp_all add: str_contains_sublist sublist_str_strip sublist_str_lower lower_char_def
        is_space_def)

section \<open>Facts about dicts and the send result\<close>

lemma has_key_dict_set: "has_key (dict_set d k v) k' \<longleftrightarrow> k' = k \<or> has_key d k'"
  by (auto simp: has_key_def dict_set_def dom_update)

lemma map_of_dict_set: "map_of (dict_set d k v) k' = (if k' = k then Some v else map_of d k')"
  by (simp add: dict_set_def update_conv')

lemma has_key_dict_update:
  "has_key (dict_update d items) k \<longleftrightarrow> has_key d k \<or> has_key items k"
proof (induction d items rule: dict_update.induct)
  case (1 d)
  then show ?case by (simp add: has_key_def)
next
  case (2 d k' v items)
  then show ?case by (auto simp: has_key_dict_set) (auto simp: has_key_def)
qed

lemma map_of_dict_update_other:
  "\<not> has_key items k \<Longrightarrow> map_of (dict_update d items) k = map_of d k"
proof (induction d items rule: dict_update.induct)
  case (1 d)
  then show ?case by simp
next
  case (2 d k' v items)
  then show ?case by (auto simp: map_of_dict_set has_key_def)
qed

lemma has_key_filter: "has_key (filter (\<lambda>(k, v). P k) d) k \<longleftrightarrow> has_key d k \<and> P k"
  by (induction d) (auto simp: has_key_def)

lemma has_key_map_of: "has_key d k \<longleftrightarrow> map_of d k \<noteq> None"
  by (simp add: has_key_def map_of_eq_None_iff)

lemma has_key_Nil: "\<not> has_key [] k"
  by (simp add: has_key_def)

lemma has_key_Cons: "has_key ((k, v) # d) k' \<longleftrightarrow> k' = k \<or> has_key d k'"
  by (auto simp: has_key_def)

lemmas dict_simps = has_key_Nil has_key_Cons has_key_dict_set has_key_dict_update has_key_filter
  map_of_dict_set map_of_dict_update_other

lemma send_result_ok: "map_of (send_result r) ''ok'' = Some (PBool True)"
  by (cases r) (simp_all add: send_result_def Let_def dict_simps)

lemma send_result_message_id:
  "has_key (send_result r) ''message_id'' \<longleftrightarrow>
     (\<exists>sd. r = PDict sd \<and> (has_key sd ''id'' \<or> has_key sd ''message_id''))"
  by (cases r) (auto simp: send_result_def Let_def dict_simps)

lemma send_result_id_value:
  assumes "has_key sd ''id''"
  shows "map_of (send_result (PDict sd)) ''message_id'' = map_of sd ''id''"
proof -
  from assms obtain y where y: "map_of sd ''id'' = Some y"
    by (auto simp: has_key_map_of)
  then have "dict_get sd ''id'' = y"
    by (simp add: dict_get_def dict_get_default_def)
  with assms y show ?thesis
    by (simp add: send_result_def Let_def dict_simps)
qed


lemma send_result_message_id_only: "send_result (PDict [(''message_id'', PStr ''m1'')])
    = [(''ok'', PBool True), (''message_id'', PStr ''m1'')]"
  by (simp add: send_result_def has_key_def dict_set_def)

lemma serializer_accepts_sample: "SendEmailSerializer sample_request
    = Inr \<lparr>req_to = ''a@b.com'', req_subject = ''Hi'', req_body = ''Hello''\<rparr>"
  by (simp add: SendEmailSerializer_def sample_request_def field_text_def dict_get_def
        dict_get_default_def)

section \<open>Facts about the list and summary handlers\<close>

lemma snippets_of_dicts: "snippets_of (map PDict ds) = Inr (map message_snippet ds)"
  by (induction ds) (simp_all add: snippet_of_def)

lemma slice_body:
  assumes "is_str (dict_get d ''body'') \<or> \<not> truthy (dict_get d ''body'')"
  shows "slice_to 2000 (py_or (dict_get d ''body'') (PStr [])) = Inr (short_body d)"
  using assms
  by (cases "dict_get d ''body''")
     (auto simp: is_str_def py_or_def slice_to_def short_body_def body_text_def)

lemma simplify_message_dict:
  assumes "is_str (dict_get d ''body'') \<or> \<not> truthy (dict_get d ''body'')"
  shows "simplify_message (PDict d) = Inr (PDict (simple_message d (short_body d)))"
  using slice_body [OF assms] by (simp add: simplify_message_def)

lemma simplify_all_dicts:
  assumes "\<forall>d\<in>set ds. is_str (dict_get d ''body'') \<or> \<not> truthy (dict_get d ''body'')"
  shows "simplify_all (map PDict ds) acc
           = Inr (acc @ map (\<lambda>d. PDict (simple_message d (short_body d))) ds)"
  using assms
proof (induction ds arbitrary: acc)
  case Nil
  then show ?case by simp
next
  case (Cons d ds)
  then show ?case by (simp add: simplify_message_dict)
qed

lemma py_or3: "py_or (py_or a b) c = first_truthy [a, b, c]"
  by (simp add: py_or_def)

lemma dict_get_absent: "\<not> has_key d k \<Longrightarrow> dict_get d k = PNone"
  by (simp add: has_key_map_of dict_get_def dict_get_default_def)

lemma sample_bodies:
  "is_str (dict_get ann_message ''body'')" "\<not> truthy (dict_get bob_message ''body'')"
  by (simp_all add: ann_message_def bob_message_def dict_get_def dict_get_default_def is_str_def)

lemma sample_ann:
  "\<not> has_key ann_message ''from''" "dict_get ann_message ''from'' = PNone"
  "dict_get ann_message ''sender'' = PStr ''ann@example.com''"
  "dict_get ann_message ''body'' = PStr ''Noon?''"
  by (simp_all add: ann_message_def dict_get_def dict_get_default_def has_key_def)

lemma sample_snippets:
  "map message_snippet [ann_message, bob_message] = [PStr ''Noon?'', PStr ''See you'']"
  by (simp add: message_snippet_def ann_message_def bob_message_def dict_get_def
        dict_get_default_def py_or_def)

section \<open>Facts about the list reply\<close>

lemma str_nat_not_Nil: "str_nat n \<noteq> []"
  by (subst str_nat.simps) simp

lemma digit_char:
  "(d::nat) < 10 \<Longrightarrow> is_digit (char_of (48 + d)) \<and> (of_char (char_of (48 + d)) :: nat) = 48 + d"
  by (simp add: is_digit_def Let_def)

lemma str_nat_digits: "c \<in> set (str_nat n) \<Longrightarrow> is_digit c"
proof (induction n arbitrary: c rule: str_nat.induct)
  case (1 n)
  show ?case
  proof (cases "n < 10")
    case True
    with "1.prems" show ?thesis
      by (subst (asm) str_nat.simps) (simp add: digit_char)
  next
    case False
    have "n mod 10 < 10" by simp
    with False "1.prems" "1.IH" digit_char [of "n mod 10"] show ?thesis
      by (subst (asm) str_nat.simps) auto
  qed
qed

lemma nat_of_digits_str_nat: "nat_of_digits (str_nat n) = n"
proof (induction n rule: str_nat.induct)
  case (1 n)
  show ?case
  proof (cases "n < 10")
    case True
    then show ?thesis
      by (subst str_nat.simps) (simp add: nat_of_digits_def digit_char)
  next
    case False
    have m: "n mod 10 < 10" by simp
    from False "1.IH" have "nat_of_digits (str_nat (n div 10)) = n div 10" by simp
    with False digit_char [OF m] show ?thesis
      by (subst str_nat.simps) (simp add: nat_of_digits_def)
  qed
qed

lemma split_lines_not_Nil: "split_lines s \<noteq> []"
  by (induction s) (auto split: list.splits)

lemma split_lines_line:
  "one_line l \<Longrightarrow> split_lines (l @ CHR 0x0A # rest) = l # split_lines rest"
  by (induction l) (auto simp: one_line_def)

lemma numbered_entries_line:
  "one_line l \<Longrightarrow>
   numbered_entries (l @ CHR 0x0A # rest)
     = (case entry_number l of None \<Rightarrow> numbered_entries rest
        | Some n \<Rightarrow> n # numbered_entries rest)"
  by (simp add: numbered_entries_def split_lines_line List.map_filter_simps split: option.splits)

lemma numbered_entries_Nil: "numbered_entries [] = []"
  by (simp add: numbered_entries_def List.map_filter_simps entry_number_def)

lemma dot_not_digit: "\<not> is_digit CHR ''.''"
  by (simp add: is_digit_def)

lemma takeWhile_str_nat: "takeWhile is_digit (str_nat i @ CHR ''.'' # r) = str_nat i"
  using str_nat_digits [of _ i] by (simp add: takeWhile_append2 dot_not_digit)

lemma dropWhile_str_nat: "dropWhile is_digit (str_nat i @ CHR ''.'' # r) = CHR ''.'' # r"
  using str_nat_digits [of _ i] by (simp add: dropWhile_append2 dot_not_digit)

lemma entry_number_heading: "entry_number (''**'' @ str_nat i @ ''. '' @ r) = Some i"
  by (simp add: entry_number_def takeWhile_str_nat dropWhile_str_nat str_nat_not_Nil
        nat_of_digits_str_nat)

lemma entry_number_dash: "entry_number (CHR ''-'' # r) = None"
  by (simp add: entry_number_def split: list.splits)

lemma entry_number_Nil: "entry_number [] = None"
  by (simp add: entry_number_def)

lemma one_line_str_nat: "one_line (str_nat i)"
  using str_nat_digits [of "CHR 0x0A" i] by (auto simp: one_line_def is_digit_def)

lemma one_line_append: "one_line (a @ b) \<longleftrightarrow> one_line a \<and> one_line b"
  by (auto simp: one_line_def)

lemma one_line_Nil: "one_line []"
  by (simp add: one_line_def)

lemma one_line_Cons: "one_line (c # s) \<longleftrightarrow> c \<noteq> CHR 0x0A \<and> one_line s"
  by (auto simp: one_line_def)

lemma upt_shift: "[i..<i + Suc n] = i # [Suc i..<Suc i + n]"
proof -
  have "[i..<i + Suc n] = i # [Suc i..<i + Suc n]"
    by (rule upt_conv_Cons) simp
  then show ?thesis by (simp del: upt_Suc)
qed

lemma entries_text_Nil: "entries_text render ftime i [] = []"
  by (simp add: entries_text_def)

lemma entries_text_Cons:
  "entries_text render ftime i (e # ds)
     = entry_text render ftime i e @ entries_text render ftime (Suc i) ds"
proof -
  have "[i..<i + length (e # ds)] = i # [Suc i..<Suc i + length ds]"
    using upt_shift [of i "length ds"] by (simp del: upt_Suc)
  then show ?thesis
    by (simp add: entries_text_def del: upt_Suc)
qed

lemma list_reply_loop_dicts:
  "list_reply_loop render ftime i (map PDict ds) reply
     = Inr (reply @ entries_text render ftime i ds)"
proof (induction ds arbitrary: i reply)
  case Nil
  then show ?case by (simp add: entries_text_Nil)
next
  case (Cons e ds)
  then show ?case by (simp add: entries_text_Cons)
qed

lemma split_lines_append_nl:
  "split_lines (x @ CHR 0x0A # rest) = split_lines x @ split_lines rest"
proof (induction x)
  case Nil
  then show ?case by simp
next
  case (Cons c x)
  then show ?case
    using split_lines_not_Nil [of x] by (cases "split_lines x") simp_all
qed

lemma map_filter_append: "List.map_filter f (xs @ ys) = List.map_filter f xs @ List.map_filter f ys"
  by (simp add: List.map_filter_def)

lemma map_filter_all_None:
  "list_all (\<lambda>l. f l = None) xs \<Longrightarrow> List.map_filter f xs = []"
  by (induction xs) (simp_all add: List.map_filter_simps)

lemma numbered_entries_append_nl:
  "numbered_entries (x @ CHR 0x0A # rest) = numbered_entries x @ numbered_entries rest"
  by (simp add: numbered_entries_def split_lines_append_nl map_filter_append)

lemma split_lines_prefix:
  "one_line p \<Longrightarrow> split_lines (p @ t) = (p @ hd (split_lines t)) # tl (split_lines t)"
proof (induction p)
  case Nil
  then show ?case using split_lines_not_Nil [of t] by simp
next
  case (Cons c p)
  then show ?case by (simp add: one_line_Cons)
qed

lemma split_lines_suffix:
  "one_line s \<Longrightarrow> split_lines (t @ s) = butlast (split_lines t) @ [last (split_lines t) @ s]"
proof (induction t)
  case Nil
  then show ?case using split_lines_prefix [of s "[]"] by simp
next
  case (Cons c t)
  then show ?case
    using split_lines_not_Nil [of t] split_lines_not_Nil [of "t @ s"]
    by (cases "split_lines t") (auto split: list.splits)
qed

lemma star_not_digit: "\<not> is_digit CHR ''*''"
  by (simp add: is_digit_def)

lemma takeWhile_stop: "\<not> P y \<Longrightarrow> takeWhile P (xs @ y # ys) = takeWhile P xs"
  by (induction xs) simp_all

lemma dropWhile_stop: "\<not> P y \<Longrightarrow> dropWhile P (xs @ y # ys) = dropWhile P xs @ y # ys"
  by (induction xs) simp_all

lemma prefix_dot_stars: "prefix ''. '' (d @ ''**'') \<longleftrightarrow> prefix ''. '' d"
proof (cases d)
  case Nil
  then show ?thesis by simp
next
  case (Cons c d')
  then show ?thesis by (cases d') simp_all
qed

lemma entry_number_stars: "entry_number (l @ ''**'') = entry_number l"
proof (cases l)
  case Nil
  then show ?thesis by (simp add: entry_number_def)
next
  case (Cons a l')
  show ?thesis
  proof (cases l')
    case Nil
    with Cons show ?thesis by (simp add: entry_number_def star_not_digit)
  next
    case (Cons b r)
    have t: "takeWhile is_digit (r @ ''**'') = takeWhile is_digit r"
      using takeWhile_stop [where P = is_digit and y = "CHR ''*''" and xs = r
        and ys = "''*''", OF star_not_digit] by simp
    have d: "dropWhile is_digit (r @ ''**'') = dropWhile is_digit r @ ''**''"
      using dropWhile_stop [where P = is_digit and y = "CHR ''*''" and xs = r
        and ys = "''*''", OF star_not_digit] by simp
    have "entry_number (a # b # (r @ ''**'')) = entry_number (a # b # r)"
      unfolding entry_number_def list.case t d prefix_dot_stars ..
    with Cons \<open>l = a # l'\<close> show ?thesis by simp
  qed
qed

lemma clean_text_stars:
  assumes "clean_text t"
  shows "clean_text (t @ ''**'')"
proof -
  obtain l0 ls where T: "split_lines t = l0 # ls"
    using split_lines_not_Nil [of t] by (cases "split_lines t") auto
  have o: "one_line ''**''"
    by (simp add: one_line_def)
  show ?thesis
  proof (cases ls)
    case Nil
    with T show ?thesis
      by (simp add: clean_text_def split_lines_suffix [OF o])
  next
    case (Cons l1 ls')
    from assms T have c: "\<forall>l\<in>set ls. entry_number l = None"
      by (simp add: clean_text_def list_all_iff)
    have "tl (split_lines (t @ ''**'')) = butlast ls @ [last ls @ ''**'']"
      using T Cons by (simp add: split_lines_suffix [OF o])
    moreover have "\<forall>l\<in>set (butlast ls). entry_number l = None"
      using c by (auto dest: in_set_butlastD)
    moreover have "entry_number (last ls @ ''**'') = None"
      using c Cons by (simp only: entry_number_stars) simp
    ultimately show ?thesis
      by (simp add: clean_text_def list_all_iff)
  qed
qed

lemma numbered_entries_prefix:
  assumes "one_line p" and "clean_text u"
  shows "numbered_entries (p @ u)
     = (case entry_number (p @ hd (split_lines u)) of None \<Rightarrow> [] | Some n \<Rightarrow> [n])"
proof -
  have "List.map_filter entry_number (tl (split_lines u)) = []"
    using assms(2) by (simp add: clean_text_def map_filter_all_None)
  then show ?thesis
    by (simp add: numbered_entries_def split_lines_prefix [OF assms(1)]
          List.map_filter_simps split: option.splits)
qed

lemma entry_numbers_clean:
  assumes "fields_clean render ftime e"
  shows "numbered_entries (entry_text render ftime i e @ rest) = i # numbered_entries rest"
proof -
  let ?p1 = "''**'' @ str_nat i @ ''. ''"
  let ?u1 = "render (dict_get_default e ''subject'' (PStr ''(No subject)'')) @ ''**''"
  let ?p2 = "''- From: ''"
  let ?u2 = "render (dict_get e ''from'')"
  let ?p3 = "''- Time: ''"
  let ?u3 = "ftime (dict_get e ''time'')"
  let ?p4 = "''- Body: ''"
  let ?u4 = "render (dict_get e ''body'')"
  let ?r4 = "[] @ CHR 0x0A # rest"
  let ?r3 = "(?p4 @ ?u4) @ CHR 0x0A # ?r4"
  let ?r2 = "(?p3 @ ?u3) @ CHR 0x0A # ?r3"
  let ?r1 = "(?p2 @ ?u2) @ CHR 0x0A # ?r2"
  from assms have c: "clean_text ?u1" "clean_text ?u2" "clean_text ?u3" "clean_text ?u4"
    by (simp_all add: fields_clean_def clean_text_stars)
  have o: "one_line ?p1" "one_line ?p2" "one_line ?p3" "one_line ?p4"
    by (simp_all add: one_line_append one_line_Cons one_line_Nil one_line_str_nat)
  have h1: "entry_number (?p1 @ x) = Some i" for x
    using entry_number_heading [of i x] by simp
  have h2: "entry_number (?p2 @ x) = None" "entry_number (?p3 @ x) = None"
    "entry_number (?p4 @ x) = None" for x
    by (simp_all add: entry_number_dash)
  have a1: "numbered_entries (?p1 @ ?u1) = [i]"
    by (simp only: numbered_entries_prefix [OF o(1) c(1)] h1 option.case)
  have a2: "numbered_entries (?p2 @ ?u2) = []"
    by (simp only: numbered_entries_prefix [OF o(2) c(2)] h2 option.case)
  have a3: "numbered_entries (?p3 @ ?u3) = []"
    by (simp only: numbered_entries_prefix [OF o(3) c(3)] h2 option.case)
  have a4: "numbered_entries (?p4 @ ?u4) = []"
    by (simp only: numbered_entries_prefix [OF o(4) c(4)] h2 option.case)
  have e: "entry_text render ftime i e @ rest = (?p1 @ ?u1) @ CHR 0x0A # ?r1"
    by (simp add: entry_text_def nl_def)
  have "numbered_entries ((?p1 @ ?u1) @ CHR 0x0A # ?r1)
      = [i] @ [] @ [] @ [] @ [] @ numbered_entries rest"
    by (simp only: numbered_entries_append_nl a1 a2 a3 a4 numbered_entries_Nil)
  then have k: "numbered_entries ((?p1 @ ?u1) @ CHR 0x0A # ?r1) = i # numbered_entries rest"
    by simp
  show ?thesis
    by (simp only: e k)
qed

lemma entries_numbers_clean:
  assumes "\<forall>e\<in>set ds. fields_clean render ftime e"
  shows "numbered_entries (entries_text render ftime i ds) = [i..<i + length ds]"
  using assms
proof (induction ds arbitrary: i)
  case Nil
  then show ?case by (simp add: entries_text_Nil numbered_entries_Nil)
next
  case (Cons e ds)
  have "[i..<i + length (e # ds)] = i # [Suc i..<Suc i + length ds]"
    using upt_shift [of i "length ds"] by (simp del: upt_Suc)
  with Cons show ?case
    by (simp add: entries_text_Cons entry_numbers_clean del: upt_Suc)
qed

lemma heading_numbers: "numbered_entries (list_heading @ rest) = numbered_entries rest"
proof -
  let ?l = "[CHR 0xF0, CHR 0x9F, CHR 0x93, CHR 0xA9] @ '' **Latest Emails:**''"
  let ?r = "[] @ CHR 0x0A # rest"
  have o: "one_line ?l"
    by (simp add: one_line_def)
  have n: "entry_number ?l = None"
    by (simp add: entry_number_def)
  have e: "list_heading @ rest = ?l @ CHR 0x0A # ?r"
    by (simp add: list_heading_def nl_def)
  have "numbered_entries (?l @ CHR 0x0A # ?r)
      = (case entry_number ?l of None \<Rightarrow> numbered_entries ?r
         | Some n \<Rightarrow> n # numbered_entries ?r)"
    by (rule numbered_entries_line [OF o])
  also have "\<dots> = numbered_entries ?r"
    by (simp only: n option.case)
  also have "numbered_entries ?r
      = (case entry_number [] of None \<Rightarrow> numbered_entries rest
         | Some n \<Rightarrow> n # numbered_entries rest)"
    by (rule numbered_entries_line [OF one_line_Nil])
  also have "\<dots> = numbered_entries rest"
    by (simp only: entry_number_Nil option.case)
  finally have "numbered_entries (?l @ CHR 0x0A # ?r) = numbered_entries rest" .
  then show ?thesis
    by (simp only: e)
qed

lemma sample_items_clean:
  "fields_clean sample_render sample_ftime ann_item"
  "fields_clean sample_render sample_ftime bob_item"
  by (simp_all add: fields_clean_def clean_text_def entry_number_def ann_item_def
        bob_item_def dict_get_def dict_get_default_def sample_render_def sample_ftime_def
        format_time_def no_date_def epoch_ms_def str_isdigit_def is_digit_def)

lemma py_int_separators:
  "py_int [CHR 0x1C, CHR ''5''] = None" "py_int [CHR ''7'', CHR 0x1F] = None"
  "py_int [CHR 0xA0, CHR ''5''] = Some 5" "py_int '' 12 '' = Some 12"
  by code_simp+

section \<open>Claims\<close>

text \<open>
  C1. The classifier resolves by a fixed priority order over substring tests:
  LIST_EMAILS if both "list" and "email" occur in the text, else SUMMARIZE if "summarize"
  occurs, else SEND_EMAIL if "send an email to" occurs, else UNKNOWN; the chat handler
  applies it to the lower-cased, trimmed utterance. In particular a text in which "list",
  "email" and "summarize" all occur resolves to LIST_EMAILS, and so does every utterance
  in which the three words occur, since lower-casing and trimming keep them.
\<close>

theorem classify_priority:
  "classify p =
     (if (\<exists>a b. p = a @ ''list'' @ b) \<and> (\<exists>a b. p = a @ ''email'' @ b) then LIST_EMAILS
      else if (\<exists>a b. p = a @ ''summarize'' @ b) then SUMMARIZE
      else if (\<exists>a b. p = a @ ''send an email to'' @ b) then SEND_EMAIL
      else UNKNOWN)
   \<and> intent_of prompt = classify (str_strip (str_lower prompt))
   \<and> (str_contains ''list'' p \<and> str_contains ''email'' p \<and> str_contains ''summarize'' p
        \<longrightarrow> classify p = LIST_EMAILS)
   \<and> (str_contains ''list'' prompt \<and> str_contains ''email'' prompt
        \<and> str_contains ''summarize'' prompt
        \<longrightarrow> intent_of prompt = LIST_EMAILS)"
proof (intro conjI impI)
  show "classify p =
     (if (\<exists>a b. p = a @ ''list'' @ b) \<and> (\<exists>a b. p = a @ ''email'' @ b) then LIST_EMAILS
      else if (\<exists>a b. p = a @ ''summarize'' @ b) then SUMMARIZE
      else if (\<exists>a b. p = a @ ''send an email to'' @ b) then SEND_EMAIL
      else UNKNOWN)"
    by (simp add: classify_def str_contains_iff)
  show "intent_of prompt = classify (str_strip (str_lower prompt))"
    by (simp add: intent_of_def)
  show "classify p = LIST_EMAILS"
    if "str_contains ''list'' p \<and> str_contains ''email'' p \<and> str_contains ''summarize'' p"
    using that by (simp add: classify_def)
  show "intent_of prompt = LIST_EMAILS"
    if "str_contains ''list'' prompt \<and> str_contains ''email'' prompt
        \<and> str_contains ''summarize'' prompt"
    using that by (simp add: intent_of_def classify_def words_stay)
qed

theorem classify_priority_witness:
  "str_contains ''list'' ''list and summarize my email''
   \<and> str_contains ''email'' ''list and summarize my email''
   \<and> str_contains ''summarize'' ''list and summarize my email''
   \<and> classify ''list and summarize my email'' = LIST_EMAILS
   \<and> intent_of ''list and summarize my email'' = LIST_EMAILS"
proof -
  have h: "str_contains ''list'' ''list and summarize my email''
    \<and> str_contains ''email'' ''list and summarize my email''
    \<and> str_contains ''summarize'' ''list and summarize my email''"
    by code_simp
  from classify_priority [of "''list and summarize my email''"
      "''list and summarize my email''"] h
  show ?thesis
    by blast
qed

text \<open>
  C2, as amended. The extractor splits the prompt on "send an email to" and takes the
  text between the first occurrence of the phrase and the next one (everything behind
  the phrase when it occurs once), trims it and splits it on "saying"; the first segment,
  trimmed, is the recipient and the second segment, trimmed, is the body, "Hello!" when
  "saying" is absent; the subject is the first 30 characters of the body, "No subject"
  for an empty body; a prompt without the phrase yields the placeholders
  "unknown@example.com" and "Hello!". Where the phrase occurs exactly once this is the
  extractor of the specification.
\<close>

theorem send_params_segment:
  "send_params prompt =
     (case str_find ''send an email to'' prompt of
        None \<Rightarrow> (''unknown@example.com'', ''Hello!'', ''Hello!'')
      | Some j \<Rightarrow>
          (let rest = drop (j + length ''send an email to'') prompt;
               seg = (case str_find ''send an email to'' rest of
                        None \<Rightarrow> rest | Some k \<Rightarrow> take k rest);
               t = str_strip seg
           in case str_find ''saying'' t of
                None \<Rightarrow> (str_strip t, ''Hello!'', ''Hello!'')
              | Some i \<Rightarrow>
                  (let r = drop (i + length ''saying'') t;
                       body = str_strip (case str_find ''saying'' r of
                                           None \<Rightarrow> r | Some m \<Rightarrow> take m r)
                   in (str_strip (take i t), body,
                       if body = [] then ''No subject'' else take 30 body))))
   \<and> (str_find ''send an email to'' prompt = Some j0
        \<and> str_find ''send an email to'' (drop (j0 + length ''send an email to'') prompt) = None
        \<longrightarrow> send_params prompt = spec_send_params prompt)"
proof
  show "send_params prompt =
     (case str_find ''send an email to'' prompt of
        None \<Rightarrow> (''unknown@example.com'', ''Hello!'', ''Hello!'')
      | Some j \<Rightarrow>
          (let rest = drop (j + length ''send an email to'') prompt;
               seg = (case str_find ''send an email to'' rest of
                        None \<Rightarrow> rest | Some k \<Rightarrow> take k rest);
               t = str_strip seg
           in case str_find ''saying'' t of
                None \<Rightarrow> (str_strip t, ''Hello!'', ''Hello!'')
              | Some i \<Rightarrow>
                  (let r = drop (i + length ''saying'') t;
                       body = str_strip (case str_find ''saying'' r of
                                           None \<Rightarrow> r | Some m \<Rightarrow> take m r)
                   in (str_strip (take i t), body,
                       if body = [] then ''No subject'' else take 30 body))))"
    by (simp add: send_params_def send_extract_def extract_try_closed tail_params_closed
          segment_after_def subject_of_def Let_def split: option.splits)
next
  show "str_find ''send an email to'' prompt = Some j0
        \<and> str_find ''send an email to'' (drop (j0 + length ''send an email to'') prompt) = None
        \<longrightarrow> send_params prompt = spec_send_params prompt"
    by (simp add: send_params_def send_extract_def extract_try_closed segment_after_def
          spec_send_params_def split: sum.splits)
qed

theorem send_params_segment_witness:
  "str_find ''send an email to'' ''send an email to a@b.com saying Hi there'' = Some 0
   \<and> str_find ''send an email to''
        (drop (0 + length ''send an email to'') ''send an email to a@b.com saying Hi there'') = None
   \<and> send_params ''send an email to a@b.com saying Hi there''
        = spec_send_params ''send an email to a@b.com saying Hi there''
   \<and> send_params ''send an email to a@b.com saying Hi there''
        = (''a@b.com'', ''Hi there'', ''Hi there'')"
proof -
  have h: "str_find ''send an email to'' ''send an email to a@b.com saying Hi there'' = Some 0
    \<and> str_find ''send an email to''
        (drop (0 + length ''send an email to'') ''send an email to a@b.com saying Hi there'') = None"
    by code_simp
  have v: "send_params ''send an email to a@b.com saying Hi there''
        = (''a@b.com'', ''Hi there'', ''Hi there'')"
    by code_simp
  from send_params_segment [of "''send an email to a@b.com saying Hi there''" 0] h v
  show ?thesis by blast
qed

text \<open>
  C2 as the specification states it fails where the phrase occurs twice: the code keeps
  only the text up to the second occurrence, the specification everything behind the
  first.
\<close>

theorem send_params_second_occurrence:
  "send_params ''send an email to a saying b send an email to c'' = (''a'', ''b'', ''b'')
   \<and> spec_send_params ''send an email to a saying b send an email to c''
       = (''a'', ''b send an email to c'', ''b send an email to c'')"
  by code_simp

text \<open>
  C10. The intent is decided on the lower-cased prompt, the extractor splits the prompt
  as typed. For every prompt whose lower-cased, trimmed form contains "send an email to"
  while the prompt itself does not, the extractor yields the placeholders
  "unknown@example.com" and "Hello!", and the send branch, when it is the one taken,
  sends them.
\<close>

theorem case_mismatch_placeholder:
  assumes "str_contains ''send an email to'' (str_strip (str_lower prompt))"
    and "\<not> str_contains ''send an email to'' prompt"
  shows "send_extract prompt = (''unknown@example.com'', ''Hello!'')
    \<and> (intent_of prompt = SEND_EMAIL
         \<longrightarrow> dispatch prompt = CallSend ''unknown@example.com'' ''Hello!'' ''Hello!'')"
  using assms(2)
  by (simp add: dispatch_def intent_of_def send_params_def subject_of_def send_extract_def
        extract_try_closed segment_after_def str_contains_def)

theorem case_mismatch_placeholder_witness:
  "str_contains ''send an email to''
     (str_strip (str_lower ''Send an email to bob@example.com saying hi''))
   \<and> \<not> str_contains ''send an email to'' ''Send an email to bob@example.com saying hi''
   \<and> intent_of ''Send an email to bob@example.com saying hi'' = SEND_EMAIL
   \<and> send_extract ''Send an email to bob@example.com saying hi''
       = (''unknown@example.com'', ''Hello!'')
   \<and> dispatch ''Send an email to bob@example.com saying hi''
       = CallSend ''unknown@example.com'' ''Hello!'' ''Hello!''"
proof -
  have h1: "str_contains ''send an email to''
     (str_strip (str_lower ''Send an email to bob@example.com saying hi''))"
    by code_simp
  have h2: "\<not> str_contains ''send an email to'' ''Send an email to bob@example.com saying hi''"
    by code_simp
  have h3: "intent_of ''Send an email to bob@example.com saying hi'' = SEND_EMAIL"
    by code_simp
  from case_mismatch_placeholder [OF h1 h2] h1 h2 h3 show ?thesis
    by blast
qed

text \<open>
  C3, as amended. For every request that the serializer accepts, the send handler calls
  the mail client's send operation exactly once, with the validated fields; when that
  call returns a result, the response is a success with ok = true in which message_id is
  present if and only if the result is a dict that has an "id" or a "message_id" field,
  and message_id is the result's "id" whenever the result has one.
\<close>

theorem send_view_message_id:
  assumes "serializer request_data = Inr v"
  shows "snd (send_view serializer send_message request_data)
           = [SendMessage (req_to v) (req_subject v) (req_body v)]
    \<and> (send_message (req_to v) (req_subject v) (req_body v) = Inr r \<longrightarrow>
         (\<exists>d. fst (send_view serializer send_message request_data) = ok_response (PDict d)
            \<and> map_of d ''ok'' = Some (PBool True)
            \<and> (has_key d ''message_id'' \<longleftrightarrow>
                 (\<exists>sd. r = PDict sd \<and> (has_key sd ''id'' \<or> has_key sd ''message_id'')))
            \<and> (\<forall>sd. r = PDict sd \<and> has_key sd ''id''
                 \<longrightarrow> map_of d ''message_id'' = map_of sd ''id'')))"
proof (intro conjI impI)
  show "snd (send_view serializer send_message request_data)
           = [SendMessage (req_to v) (req_subject v) (req_body v)]"
    using assms by (simp add: send_view_def split: sum.splits)
next
  assume r: "send_message (req_to v) (req_subject v) (req_body v) = Inr r"
  have resp: "fst (send_view serializer send_message request_data)
      = ok_response (PDict (send_result r))"
    using assms r by (simp add: send_view_def)
  have idv: "\<forall>sd. r = PDict sd \<and> has_key sd ''id''
      \<longrightarrow> map_of (send_result r) ''message_id'' = map_of sd ''id''"
    by (auto simp: send_result_id_value)
  show "\<exists>d. fst (send_view serializer send_message request_data) = ok_response (PDict d)
            \<and> map_of d ''ok'' = Some (PBool True)
            \<and> (has_key d ''message_id'' \<longleftrightarrow>
                 (\<exists>sd. r = PDict sd \<and> (has_key sd ''id'' \<or> has_key sd ''message_id'')))
            \<and> (\<forall>sd. r = PDict sd \<and> has_key sd ''id''
                 \<longrightarrow> map_of d ''message_id'' = map_of sd ''id'')"
  proof (intro exI [of _ "send_result r"] conjI)
    show "fst (send_view serializer send_message request_data)
      = ok_response (PDict (send_result r))" by (rule resp)
    show "map_of (send_result r) ''ok'' = Some (PBool True)" by (rule send_result_ok)
    show "has_key (send_result r) ''message_id'' \<longleftrightarrow>
                 (\<exists>sd. r = PDict sd \<and> (has_key sd ''id'' \<or> has_key sd ''message_id''))"
      by (rule send_result_message_id)
    show "\<forall>sd. r = PDict sd \<and> has_key sd ''id''
      \<longrightarrow> map_of (send_result r) ''message_id'' = map_of sd ''id''" by (rule idv)
  qed
qed

theorem send_view_message_id_witness:
  "SendEmailSerializer sample_request
     = Inr \<lparr>req_to = ''a@b.com'', req_subject = ''Hi'', req_body = ''Hello''\<rparr>
   \<and> returns_id ''a@b.com'' ''Hi'' ''Hello''
       = Inr (PDict [(''id'', PStr ''m1''), (''threadId'', PStr ''t1'')])
   \<and> snd (send_view SendEmailSerializer returns_id sample_request)
       = [SendMessage ''a@b.com'' ''Hi'' ''Hello'']
   \<and> (\<exists>d. fst (send_view SendEmailSerializer returns_id sample_request) = ok_response (PDict d)
          \<and> map_of d ''ok'' = Some (PBool True)
          \<and> has_key d ''message_id''
          \<and> map_of d ''message_id'' = Some (PStr ''m1''))"
proof -
  let ?v = "\<lparr>req_to = ''a@b.com'', req_subject = ''Hi'', req_body = ''Hello''\<rparr>"
  let ?sd = "[(''id'', PStr ''m1''), (''threadId'', PStr ''t1'')]"
  have h: "SendEmailSerializer sample_request = Inr ?v"
    by (rule serializer_accepts_sample)
  have r: "returns_id (req_to ?v) (req_subject ?v) (req_body ?v) = Inr (PDict ?sd)"
    by (simp add: returns_id_def)
  have k: "has_key ?sd ''id''" and m: "map_of ?sd ''id'' = Some (PStr ''m1'')"
    by (simp_all add: has_key_def)
  from send_view_message_id [where serializer = SendEmailSerializer
      and request_data = sample_request and v = ?v and send_message = returns_id
      and r = "PDict ?sd", OF h] r
  obtain d where d: "snd (send_view SendEmailSerializer returns_id sample_request)
       = [SendMessage ''a@b.com'' ''Hi'' ''Hello'']"
    "fst (send_view SendEmailSerializer returns_id sample_request) = ok_response (PDict d)"
    "map_of d ''ok'' = Some (PBool True)"
    "has_key d ''message_id'' \<longleftrightarrow>
       (\<exists>sd. PDict ?sd = PDict sd \<and> (has_key sd ''id'' \<or> has_key sd ''message_id''))"
    "\<forall>sd. PDict ?sd = PDict sd \<and> has_key sd ''id'' \<longrightarrow> map_of d ''message_id'' = map_of sd ''id''"
    by auto
  from d(4) k have "has_key d ''message_id''" by simp
  moreover from d(5) k m have "map_of d ''message_id'' = Some (PStr ''m1'')" by simp
  ultimately show ?thesis
    using h r d(1,2,3) by auto
qed

text \<open>
  C3 as the specification states it fails for a mail client whose result carries
  "message_id" and no "id": the handler copies every field of the result that the
  response does not have yet, so message_id is present.
\<close>

theorem send_view_message_id_without_id: "send_view SendEmailSerializer returns_message_id sample_request
   = (ok_response (PDict [(''ok'', PBool True), (''message_id'', PStr ''m1'')]),
      [SendMessage ''a@b.com'' ''Hi'' ''Hello''])
   \<and> \<not> has_key [(''message_id'', PStr ''m1'')] ''id''"
  by (simp add: send_view_def serializer_accepts_sample returns_message_id_def send_result_message_id_only has_key_def)

text \<open>
  C6. A spam request whose action is none of mark_spam, unspam and unmark_spam gets a
  client error (status 400) and the label operation of the mail client is not called.
  For a request that carries a message id, the action mark_spam calls the label
  operation once to add the label "SPAM", and the actions unspam and unmark_spam call it
  once to remove the label "SPAM".
\<close>

theorem manage_spam_actions:
  "(dict_get body ''action'' \<noteq> PStr ''mark_spam''
      \<and> dict_get body ''action'' \<noteq> PStr ''unspam''
      \<and> dict_get body ''action'' \<noteq> PStr ''unmark_spam''
     \<longrightarrow> resp_status (fst (manage_spam modify_message_labels body)) = 400
         \<and> snd (manage_spam modify_message_labels body) = [])
   \<and> (truthy (dict_get body1 ''message_id'') \<and> dict_get body1 ''action'' = PStr ''mark_spam''
     \<longrightarrow> snd (manage_spam modify_message_labels body1)
           = [ModifyLabels (dict_get body1 ''message_id'')
                [(''add_labels'', PList [PStr ''SPAM''])]])
   \<and> (truthy (dict_get body2 ''message_id'')
       \<and> (dict_get body2 ''action'' = PStr ''unspam''
            \<or> dict_get body2 ''action'' = PStr ''unmark_spam'')
     \<longrightarrow> snd (manage_spam modify_message_labels body2)
           = [ModifyLabels (dict_get body2 ''message_id'')
                [(''remove_labels'', PList [PStr ''SPAM''])]])"
proof (intro conjI impI)
  assume "dict_get body ''action'' \<noteq> PStr ''mark_spam''
      \<and> dict_get body ''action'' \<noteq> PStr ''unspam''
      \<and> dict_get body ''action'' \<noteq> PStr ''unmark_spam''"
  then show "resp_status (fst (manage_spam modify_message_labels body)) = 400"
    and "snd (manage_spam modify_message_labels body) = []"
    by (simp_all add: manage_spam_def Let_def bad_request_def)
next
  assume "truthy (dict_get body1 ''message_id'') \<and> dict_get body1 ''action'' = PStr ''mark_spam''"
  then show "snd (manage_spam modify_message_labels body1)
           = [ModifyLabels (dict_get body1 ''message_id'')
                [(''add_labels'', PList [PStr ''SPAM''])]]"
    by (simp add: manage_spam_def Let_def label_call_def split: sum.splits)
next
  assume "truthy (dict_get body2 ''message_id'')
       \<and> (dict_get body2 ''action'' = PStr ''unspam''
            \<or> dict_get body2 ''action'' = PStr ''unmark_spam'')"
  then show "snd (manage_spam modify_message_labels body2)
           = [ModifyLabels (dict_get body2 ''message_id'')
                [(''remove_labels'', PList [PStr ''SPAM''])]]"
    by (auto simp: manage_spam_def Let_def label_call_def split: sum.splits)
qed

theorem manage_spam_actions_witness:
  "dict_get [(''message_id'', PStr ''m1''), (''action'', PStr ''delete'')] ''action''
      \<noteq> PStr ''mark_spam''
   \<and> resp_status (fst (manage_spam labels_modified
         [(''message_id'', PStr ''m1''), (''action'', PStr ''delete'')])) = 400
   \<and> snd (manage_spam labels_modified
         [(''message_id'', PStr ''m1''), (''action'', PStr ''delete'')]) = []
   \<and> snd (manage_spam labels_modified
         [(''message_id'', PStr ''m1''), (''action'', PStr ''mark_spam'')])
       = [ModifyLabels (PStr ''m1'') [(''add_labels'', PList [PStr ''SPAM''])]]
   \<and> snd (manage_spam labels_modified
         [(''message_id'', PStr ''m1''), (''action'', PStr ''unspam'')])
       = [ModifyLabels (PStr ''m1'') [(''remove_labels'', PList [PStr ''SPAM''])]]"
proof -
  let ?b = "[(''message_id'', PStr ''m1''), (''action'', PStr ''delete'')]"
  let ?b1 = "[(''message_id'', PStr ''m1''), (''action'', PStr ''mark_spam'')]"
  let ?b2 = "[(''message_id'', PStr ''m1''), (''action'', PStr ''unspam'')]"
  have a: "dict_get ?b ''action'' = PStr ''delete''"
    and a1: "dict_get ?b1 ''action'' = PStr ''mark_spam''"
    and a2: "dict_get ?b2 ''action'' = PStr ''unspam''"
    and m1: "dict_get ?b1 ''message_id'' = PStr ''m1''"
    and m2: "dict_get ?b2 ''message_id'' = PStr ''m1''"
    by (simp_all add: dict_get_def dict_get_default_def)
  from manage_spam_actions [of ?b labels_modified ?b1 ?b2] a a1 a2 m1 m2
  show ?thesis by simp
qed

text \<open>
  C7. A limit parameter that fails integer parsing leaves the list handler with the limit
  10 and the summary handler with the limit 5, and these are the limits passed to the
  mail client. A digit next to one of the separators U+001C to U+001F is such a value.
\<close>

theorem limit_default_on_parse_failure:
  assumes "py_int s = None"
  shows "list_limit (Some s) = 10 \<and> summary_limit (Some s) = 5
    \<and> snd (list_view list_messages q (Some s))
        = [ListMessages [(''query'', opt_str q), (''max_results'', PInt 10)]]
    \<and> hd (snd (summary_view st list_messages create render (Some s)))
        = ListMessages [(''max_results'', PInt 5)]"
proof -
  have l: "list_limit (Some s) = 10" and m: "summary_limit (Some s) = 5"
    using assms by (simp_all add: list_limit_def summary_limit_def parse_limit_def)
  have "snd (list_view list_messages q (Some s))
        = [ListMessages [(''query'', opt_str q), (''max_results'', PInt 10)]]"
    by (simp add: list_view_def l Let_def split: sum.splits)
  moreover have "hd (snd (summary_view st list_messages create render (Some s)))
        = ListMessages [(''max_results'', PInt 5)]"
    by (simp add: summary_view_def m Let_def split: sum.splits)
  ultimately show ?thesis using l m by simp
qed

theorem limit_default_on_parse_failure_witness:
  "py_int ''abc'' = None
   \<and> list_limit (Some ''abc'') = 10 \<and> summary_limit (Some ''abc'') = 5
   \<and> snd (list_view empty_inbox None (Some ''abc''))
        = [ListMessages [(''query'', opt_str None), (''max_results'', PInt 10)]]
   \<and> hd (snd (summary_view no_key empty_inbox sample_completion sample_render (Some ''abc'')))
        = ListMessages [(''max_results'', PInt 5)]
   \<and> py_int [CHR 0x1C, CHR ''5''] = None
   \<and> list_limit (Some [CHR 0x1C, CHR ''5'']) = 10
   \<and> summary_limit (Some [CHR 0x1C, CHR ''5'']) = 5"
proof -
  have h: "py_int ''abc'' = None"
    by code_simp
  have k: "py_int [CHR 0x1C, CHR ''5''] = None"
    by (rule py_int_separators)
  from limit_default_on_parse_failure [OF h, where list_messages = empty_inbox
      and q = None and st = no_key and create = sample_completion
      and render = sample_render]
    limit_default_on_parse_failure [OF k, where list_messages = empty_inbox
      and q = None and st = no_key and create = sample_completion
      and render = sample_render] h k
  show ?thesis by simp
qed

text \<open>
  C4. While no summarization credential is configured (the setting OPENAI_API_KEY is
  missing, None or empty), the summary handler never calls the completion API: its only
  call is the list operation of the mail client, and its answer does not depend on the
  completion API. When the mail client returns the messages, the response is a success
  that carries the raw snippets (the body of each message, else its snippet, else the
  empty string), summary = null and the warning "OPENAI_API_KEY not set in settings.",
  which is not empty.
\<close>

theorem summary_without_key:
  assumes "\<not> truthy (getattr (OPENAI_API_KEY st) PNone)"
  shows "snd (summary_view st list_messages create render raw)
           = [ListMessages [(''max_results'', PInt (summary_limit raw))]]
    \<and> summary_view st list_messages create render raw
         = summary_view st list_messages create' render raw
    \<and> (list_messages [(''max_results'', PInt (summary_limit raw))] = Inr (map PDict ds)
        \<longrightarrow> fst (summary_view st list_messages create render raw)
             = ok_response (PDict
                 [(''snippets'', PList (map message_snippet ds)),
                  (''summary'', PNone),
                  (''warning'', PStr ''OPENAI_API_KEY not set in settings.'')]))"
proof (intro conjI impI)
  show "snd (summary_view st list_messages create render raw)
           = [ListMessages [(''max_results'', PInt (summary_limit raw))]]"
    using assms by (simp add: summary_view_def Let_def split: sum.splits)
next
  show "summary_view st list_messages create render raw
         = summary_view st list_messages create' render raw"
    using assms by (simp add: summary_view_def Let_def split: sum.splits)
next
  assume "list_messages [(''max_results'', PInt (summary_limit raw))] = Inr (map PDict ds)"
  then show "fst (summary_view st list_messages create render raw)
             = ok_response (PDict
                 [(''snippets'', PList (map message_snippet ds)),
                  (''summary'', PNone),
                  (''warning'', PStr ''OPENAI_API_KEY not set in settings.'')])"
    using assms by (simp add: summary_view_def Let_def snippets_of_dicts)
qed

theorem summary_without_key_witness:
  "\<not> truthy (getattr (OPENAI_API_KEY no_key) PNone)
   \<and> two_messages [(''max_results'', PInt (summary_limit None))]
        = Inr (map PDict [ann_message, bob_message])
   \<and> snd (summary_view no_key two_messages sample_completion sample_render None)
        = [ListMessages [(''max_results'', PInt (summary_limit None))]]
   \<and> fst (summary_view no_key two_messages sample_completion sample_render None)
        = ok_response (PDict
            [(''snippets'', PList [PStr ''Noon?'', PStr ''See you'']),
             (''summary'', PNone),
             (''warning'', PStr ''OPENAI_API_KEY not set in settings.'')])"
proof -
  have h: "\<not> truthy (getattr (OPENAI_API_KEY no_key) PNone)"
    by (simp add: no_key_def getattr_def)
  have l: "two_messages [(''max_results'', PInt (summary_limit None))]
        = Inr (map PDict [ann_message, bob_message])"
    by (simp add: two_messages_def)
  note t = summary_without_key [OF h, where list_messages = two_messages
      and create = sample_completion and render = sample_render and raw = None
      and ds = "[ann_message, bob_message]"]
  from t have c: "snd (summary_view no_key two_messages sample_completion sample_render None)
        = [ListMessages [(''max_results'', PInt (summary_limit None))]]"
    by blast
  from t l have "fst (summary_view no_key two_messages sample_completion sample_render None)
        = ok_response (PDict
            [(''snippets'', PList (map message_snippet [ann_message, bob_message])),
             (''summary'', PNone),
             (''warning'', PStr ''OPENAI_API_KEY not set in settings.'')])"
    by blast
  then have v: "fst (summary_view no_key two_messages sample_completion sample_render None)
        = ok_response (PDict
            [(''snippets'', PList [PStr ''Noon?'', PStr ''See you'']),
             (''summary'', PNone),
             (''warning'', PStr ''OPENAI_API_KEY not set in settings.'')])"
    by (simp only: sample_snippets)
  from h l c v show ?thesis
    by (intro conjI)
qed

text \<open>
  C5, as amended. For every raw message whose body is a string or is falsy, list
  normalization produces the fixed shape id, threadId, from, to, subject, snippet, time,
  body. "from" is the first truthy value among "from", "sender" and "emailFrom" (a value
  that is null, empty or otherwise falsy is passed over, and the last one is taken when
  none is truthy), "subject" likewise among "subject", "title" and "header_subject", and
  the body is cut to its first 2000 characters. In particular a message without "from"
  whose "sender" is truthy gets the value of "sender" as "from". The list handler
  answers with the normalized messages in order.
\<close>

theorem simplify_message_fallbacks:
  assumes "is_str (dict_get d ''body'') \<or> \<not> truthy (dict_get d ''body'')"
  shows "(\<exists>out. simplify_message (PDict d) = Inr (PDict out)
     \<and> map fst out = [''id'', ''threadId'', ''from'', ''to'', ''subject'', ''snippet'',
                        ''time'', ''body'']
     \<and> dict_get out ''from''
         = first_truthy [dict_get d ''from'', dict_get d ''sender'', dict_get d ''emailFrom'']
     \<and> dict_get out ''subject''
         = first_truthy [dict_get d ''subject'', dict_get d ''title'',
                         dict_get d ''header_subject'']
     \<and> dict_get out ''body'' = PStr (take 2000 (body_text (dict_get d ''body'')))
     \<and> (\<not> has_key d ''from'' \<and> truthy (dict_get d ''sender'')
          \<longrightarrow> dict_get out ''from'' = dict_get d ''sender''))
   \<and> (list_messages [(''query'', opt_str q), (''max_results'', PInt (list_limit raw))]
           = Inr (map PDict ds)
         \<and> (\<forall>m\<in>set ds. is_str (dict_get m ''body'') \<or> \<not> truthy (dict_get m ''body''))
       \<longrightarrow> fst (list_view list_messages q raw)
             = ok_response (PList (map (\<lambda>m. PDict (simple_message m (short_body m))) ds)))"
proof (rule conjI)
  let ?out = "simple_message d (short_body d)"
  have "simplify_message (PDict d) = Inr (PDict ?out)"
    by (rule simplify_message_dict [OF assms])
  moreover have "map fst ?out
      = [''id'', ''threadId'', ''from'', ''to'', ''subject'', ''snippet'', ''time'', ''body'']"
    by (simp add: simple_message_def)
  moreover have "dict_get ?out ''from''
         = first_truthy [dict_get d ''from'', dict_get d ''sender'', dict_get d ''emailFrom'']"
    by (simp add: simple_message_def py_or3 dict_get_def [of "_ # _"]
          dict_get_default_def [of "_ # _"])
  moreover have "dict_get ?out ''subject''
         = first_truthy [dict_get d ''subject'', dict_get d ''title'',
                         dict_get d ''header_subject'']"
    by (simp add: simple_message_def py_or3 dict_get_def [of "_ # _"]
          dict_get_default_def [of "_ # _"])
  moreover have "dict_get ?out ''body'' = PStr (take 2000 (body_text (dict_get d ''body'')))"
    by (simp add: simple_message_def short_body_def dict_get_def [of "_ # _"]
          dict_get_default_def [of "_ # _"])
  moreover have "\<not> has_key d ''from'' \<and> truthy (dict_get d ''sender'')
          \<longrightarrow> dict_get ?out ''from'' = dict_get d ''sender''"
    by (simp add: simple_message_def py_or_def dict_get_absent
          dict_get_def [of "_ # _"] dict_get_default_def [of "_ # _"])
  ultimately show "\<exists>out. simplify_message (PDict d) = Inr (PDict out)
     \<and> map fst out = [''id'', ''threadId'', ''from'', ''to'', ''subject'', ''snippet'',
                        ''time'', ''body'']
     \<and> dict_get out ''from''
         = first_truthy [dict_get d ''from'', dict_get d ''sender'', dict_get d ''emailFrom'']
     \<and> dict_get out ''subject''
         = first_truthy [dict_get d ''subject'', dict_get d ''title'',
                         dict_get d ''header_subject'']
     \<and> dict_get out ''body'' = PStr (take 2000 (body_text (dict_get d ''body'')))
     \<and> (\<not> has_key d ''from'' \<and> truthy (dict_get d ''sender'')
          \<longrightarrow> dict_get out ''from'' = dict_get d ''sender'')"
    by (intro exI [of _ ?out] conjI)
next
  show "list_messages [(''query'', opt_str q), (''max_results'', PInt (list_limit raw))]
           = Inr (map PDict ds)
         \<and> (\<forall>m\<in>set ds. is_str (dict_get m ''body'') \<or> \<not> truthy (dict_get m ''body''))
       \<longrightarrow> fst (list_view list_messages q raw)
             = ok_response (PList (map (\<lambda>m. PDict (simple_message m (short_body m))) ds))"
    by (simp add: list_view_def Let_def simplify_all_dicts)
qed

theorem simplify_message_fallbacks_witness:
  "is_str (dict_get ann_message ''body'') \<and> \<not> truthy (dict_get bob_message ''body'')
   \<and> \<not> has_key ann_message ''from'' \<and> truthy (dict_get ann_message ''sender'')
   \<and> two_messages [(''query'', opt_str None), (''max_results'', PInt (list_limit None))]
        = Inr (map PDict [ann_message, bob_message])
   \<and> (\<exists>out. simplify_message (PDict ann_message) = Inr (PDict out)
          \<and> dict_get out ''from'' = PStr ''ann@example.com''
          \<and> dict_get out ''body'' = PStr ''Noon?'')
   \<and> fst (list_view two_messages None None)
        = ok_response (PList (map (\<lambda>m. PDict (simple_message m (short_body m)))
            [ann_message, bob_message]))"
proof -
  have h: "is_str (dict_get ann_message ''body'') \<or> \<not> truthy (dict_get ann_message ''body'')"
    using sample_bodies by simp
  have s: "\<not> has_key ann_message ''from'' \<and> truthy (dict_get ann_message ''sender'')"
    by (simp add: sample_ann)
  have l: "two_messages [(''query'', opt_str None), (''max_results'', PInt (list_limit None))]
        = Inr (map PDict [ann_message, bob_message])"
    by (simp add: two_messages_def)
  have a: "\<forall>m\<in>set [ann_message, bob_message].
          is_str (dict_get m ''body'') \<or> \<not> truthy (dict_get m ''body'')"
    using sample_bodies by simp
  note t = simplify_message_fallbacks [OF h, where list_messages = two_messages
      and q = None and raw = None and ds = "[ann_message, bob_message]"]
  from t obtain out where out: "simplify_message (PDict ann_message) = Inr (PDict out)"
    "dict_get out ''body'' = PStr (take 2000 (body_text (dict_get ann_message ''body'')))"
    "\<not> has_key ann_message ''from'' \<and> truthy (dict_get ann_message ''sender'')
       \<longrightarrow> dict_get out ''from'' = dict_get ann_message ''sender''"
    by blast
  from out(2) have b: "dict_get out ''body'' = PStr ''Noon?''"
    by (simp add: sample_ann body_text_def)
  from out(3) s have f: "dict_get out ''from'' = PStr ''ann@example.com''"
    by (simp add: sample_ann)
  from t l a have v: "fst (list_view two_messages None None)
        = ok_response (PList (map (\<lambda>m. PDict (simple_message m (short_body m)))
            [ann_message, bob_message]))"
    by blast
  from out(1) b f have e: "\<exists>out. simplify_message (PDict ann_message) = Inr (PDict out)
          \<and> dict_get out ''from'' = PStr ''ann@example.com''
          \<and> dict_get out ''body'' = PStr ''Noon?''"
    by blast
  from sample_bodies s l e v show ?thesis
    by (intro conjI) simp_all
qed

text \<open>
  C5 as the specification states it fails on values that are not null but falsy: a
  message without "from" whose "sender" is the empty string gets the value of
  "emailFrom", not that of "sender", and a message whose "from" is the empty string gets
  the value of "sender", although "from" is not null.
\<close>

theorem simplify_message_empty_sender:
  "simplify_message (PDict [(''sender'', PStr []), (''emailFrom'', PStr ''z@example.com'')])
     = Inr (PDict [(''id'', PNone), (''threadId'', PNone), (''from'', PStr ''z@example.com''),
                   (''to'', PNone), (''subject'', PNone), (''snippet'', PNone),
                   (''time'', PNone), (''body'', PStr [])])
   \<and> simplify_message (PDict [(''from'', PStr []), (''sender'', PStr ''s@example.com'')])
     = Inr (PDict [(''id'', PNone), (''threadId'', PNone), (''from'', PStr ''s@example.com''),
                   (''to'', PNone), (''subject'', PNone), (''snippet'', PNone),
                   (''time'', PNone), (''body'', PStr [])])"
  by (simp add: simplify_message_def simple_message_def slice_to_def py_or_def dict_get_def
        dict_get_default_def)

text \<open>
  C8, as amended. Each backend call of the chat client is made with a fixed timeout: 10
  seconds for list, 10 seconds for summarize and 15 seconds for send. A request that
  raises, by a timeout or by anything else, makes the helper return the dict that holds
  the text of the exception under "error".
\<close>

theorem backend_call_timeouts:
  "map timeout_of (snd (list_emails requests_get limit)) = [10]
   \<and> map timeout_of (snd (summarize_emails requests_get limit')) = [10]
   \<and> map timeout_of (snd (send_email requests_post to subject body)) = [15]
   \<and> (requests_get LIST_URL [(''limit'', PInt limit)] 10 = Inl e1
        \<longrightarrow> fst (list_emails requests_get limit) = PDict [(''error'', PStr (exn_str e1))])
   \<and> (requests_get SUMMARY_URL [(''limit'', PInt limit')] 10 = Inl e2
        \<longrightarrow> fst (summarize_emails requests_get limit')
             = PDict [(''error'', PStr (exn_str e2))])
   \<and> (requests_post SEND_URL
          (PDict [(''to'', PStr to), (''subject'', PStr subject), (''body'', PStr body)]) 15
          = Inl e3
        \<longrightarrow> fst (send_email requests_post to subject body)
             = PDict [(''error'', PStr (exn_str e3))])"
  by (simp add: list_emails_def summarize_emails_def send_email_def Let_def)

theorem backend_call_timeouts_witness:
  "timing_out_get LIST_URL [(''limit'', PInt 3)] 10 = Inl (Exn ''Read timed out.'')
   \<and> timing_out_get SUMMARY_URL [(''limit'', PInt 5)] 10 = Inl (Exn ''Read timed out.'')
   \<and> timing_out_post SEND_URL
        (PDict [(''to'', PStr ''a@b.com''), (''subject'', PStr ''Hi''), (''body'', PStr ''Hi'')])
        15 = Inl (Exn ''Read timed out.'')
   \<and> map timeout_of (snd (list_emails timing_out_get 3)) = [10]
   \<and> map timeout_of (snd (summarize_emails timing_out_get 5)) = [10]
   \<and> map timeout_of (snd (send_email timing_out_post ''a@b.com'' ''Hi'' ''Hi'')) = [15]
   \<and> fst (list_emails timing_out_get 3) = PDict [(''error'', PStr ''Read timed out.'')]
   \<and> fst (summarize_emails timing_out_get 5) = PDict [(''error'', PStr ''Read timed out.'')]
   \<and> fst (send_email timing_out_post ''a@b.com'' ''Hi'' ''Hi'')
        = PDict [(''error'', PStr ''Read timed out.'')]"
proof -
  have h1: "timing_out_get LIST_URL [(''limit'', PInt 3)] 10 = Inl (Exn ''Read timed out.'')"
    and h2: "timing_out_get SUMMARY_URL [(''limit'', PInt 5)] 10 = Inl (Exn ''Read timed out.'')"
    by (simp_all add: timing_out_get_def)
  have h3: "timing_out_post SEND_URL
        (PDict [(''to'', PStr ''a@b.com''), (''subject'', PStr ''Hi''), (''body'', PStr ''Hi'')])
        15 = Inl (Exn ''Read timed out.'')"
    by (simp add: timing_out_post_def)
  from backend_call_timeouts [where requests_get = timing_out_get and limit = 3
      and limit' = 5 and requests_post = timing_out_post and to = "''a@b.com''"
      and subject = "''Hi''" and body = "''Hi''" and ?e1.0 = "Exn ''Read timed out.''"
      and ?e2.0 = "Exn ''Read timed out.''" and ?e3.0 = "Exn ''Read timed out.''"]
    h1 h2 h3
  show ?thesis by simp
qed

text \<open>
  C8 as the specification states it fails on the constants: the timeout of summarize is
  10, the same as the one of list and less than the 15 of send, so it exceeds neither.
\<close>

theorem summarize_timeout_not_longer:
  "timeout_of (hd (snd (list_emails timing_out_get 3))) = 10
   \<and> timeout_of (hd (snd (summarize_emails timing_out_get 5))) = 10
   \<and> timeout_of (hd (snd (send_email timing_out_post ''a@b.com'' ''Hi'' ''Hi''))) = 15
   \<and> \<not> timeout_of (hd (snd (list_emails timing_out_get 3)))
         < timeout_of (hd (snd (summarize_emails timing_out_get 5)))
   \<and> \<not> timeout_of (hd (snd (send_email timing_out_post ''a@b.com'' ''Hi'' ''Hi'')))
         < timeout_of (hd (snd (summarize_emails timing_out_get 5)))"
  by (simp add: list_emails_def summarize_emails_def send_email_def Let_def)

text \<open>
  C9, as amended. For a list response of N items the formatter returns the heading
  followed by one entry per item, in order, the entries numbered from 1 to N. When no
  rendered field (subject, from, time, body) holds, after its first line, a line that
  itself reads as a numbered line, reading the reply back line by line finds exactly
  the numbered lines 1 to N, so counting them gives N. Fields of several lines are
  allowed.
\<close>

theorem list_reply_numbered_entries:
  "list_reply render ftime (map PDict ds)
     = Inr (list_heading
            @ concat (map (\<lambda>(i, e). entry_text render ftime i e)
                        (zip [1..<Suc (length ds)] ds)))
   \<and> ((\<forall>e\<in>set ds. fields_clean render ftime e) \<longrightarrow>
        (\<exists>reply. list_reply render ftime (map PDict ds) = Inr reply
           \<and> numbered_entries reply = [1..<Suc (length ds)]
           \<and> length (numbered_entries reply) = length ds))"
proof (intro conjI impI)
  show "list_reply render ftime (map PDict ds)
     = Inr (list_heading
            @ concat (map (\<lambda>(i, e). entry_text render ftime i e)
                        (zip [1..<Suc (length ds)] ds)))"
    by (simp add: list_reply_def list_reply_loop_dicts entries_text_def del: upt_Suc)
  assume a: "\<forall>e\<in>set ds. fields_clean render ftime e"
  have r: "list_reply render ftime (map PDict ds)
      = Inr (list_heading @ entries_text render ftime 1 ds)"
    by (simp add: list_reply_def list_reply_loop_dicts)
  have n: "numbered_entries (list_heading @ entries_text render ftime 1 ds)
      = [1..<Suc (length ds)]"
    using entries_numbers_clean [OF a, of 1] by (simp add: heading_numbers del: upt_Suc)
  have l: "length [1..<Suc (length ds)] = length ds"
    by (simp del: upt_Suc)
  show "\<exists>reply. list_reply render ftime (map PDict ds) = Inr reply
           \<and> numbered_entries reply = [1..<Suc (length ds)]
           \<and> length (numbered_entries reply) = length ds"
  proof (intro exI [of _ "list_heading @ entries_text render ftime 1 ds"] conjI)
    show "list_reply render ftime (map PDict ds)
      = Inr (list_heading @ entries_text render ftime 1 ds)" by (rule r)
    show "numbered_entries (list_heading @ entries_text render ftime 1 ds)
      = [1..<Suc (length ds)]" by (rule n)
    show "length (numbered_entries (list_heading @ entries_text render ftime 1 ds))
      = length ds" by (simp only: n l)
  qed
qed

theorem list_reply_numbered_entries_witness:
  "fields_clean sample_render sample_ftime ann_item
   \<and> fields_clean sample_render sample_ftime bob_item
   \<and> \<not> one_line (sample_render (dict_get ann_item ''body''))
   \<and> (\<exists>reply. list_reply sample_render sample_ftime (map PDict [ann_item, bob_item]) = Inr reply
         \<and> numbered_entries reply = [1, 2]
         \<and> length (numbered_entries reply) = 2)"
proof -
  have a: "\<forall>e\<in>set [ann_item, bob_item]. fields_clean sample_render sample_ftime e"
    using sample_items_clean by simp
  have m: "\<not> one_line (sample_render (dict_get ann_item ''body''))"
    by (simp add: one_line_def sample_render_def ann_item_def dict_get_def
          dict_get_default_def)
  from list_reply_numbered_entries [of sample_render sample_ftime "[ann_item, bob_item]"] a
  obtain reply where r:
    "list_reply sample_render sample_ftime (map PDict [ann_item, bob_item]) = Inr reply"
    "numbered_entries reply = [1..<Suc (length [ann_item, bob_item])]"
    by blast
  from r(2) have "numbered_entries reply = [1, 2]"
    by (simp add: upt_rec)
  with r(1) sample_items_clean m show ?thesis
    by auto
qed

text \<open>
  C9 as the specification states it fails for an item whose body holds a line that reads
  as a numbered line: the reply for the one item \<open>eve_item\<close> has the numbered lines 1
  and 7, two for one item.
\<close>

theorem list_reply_stray_number:
  "list_reply sample_render sample_ftime [PDict eve_item]
     = Inr (list_heading @ entry_text sample_render sample_ftime 1 eve_item)
   \<and> numbered_entries (list_heading @ entry_text sample_render sample_ftime 1 eve_item)
       = [1, 7]
   \<and> length [PDict eve_item] = 1"
proof (intro conjI)
  show "list_reply sample_render sample_ftime [PDict eve_item]
     = Inr (list_heading @ entry_text sample_render sample_ftime 1 eve_item)"
    by (simp add: list_reply_def)
  show "numbered_entries (list_heading @ entry_text sample_render sample_ftime 1 eve_item)
       = [1, 7]"
    by code_simp
  show "length [PDict eve_item] = 1"
    by simp
qed

end
